theory Spec2Isabelle
  imports Complex_Main "HOL-Library.Sublist"
begin

section \<open>Numbers, rectangles and pointer events\<close>

text \<open>
  The components of \<^verbatim>\<open>src/components/RightPanel.tsx\<close> compute with JavaScript numbers
  (IEEE doubles). A finite number is modelled as a \<^typ>\<open>real\<close>: exact arithmetic, no rounding.
  What the browser hands to a handler (pointer positions, bounding rectangles, element and
  image sizes) is finite, and so is every number a state of the model holds. A division by
  zero gives \<^verbatim>\<open>Infinity\<close>, \<^verbatim>\<open>-Infinity\<close> or \<^verbatim>\<open>NaN\<close>. Where \<^verbatim>\<open>Math.min\<close>, \<^verbatim>\<open>Math.max\<close>, a
  comparison or a further division can turn such a value into a finite one again (the crop
  box, the text overlay, the fit computation), the handler computes with \<open>jsnum\<close>, the
  finite numbers together with these three values. Where it always reaches the state (the
  comparator's slider over a container of width 0, the wheel zoom at scale 0), the handler
  tests the divisor.

  Zero is the positive zero: a length read from the DOM is never \<^verbatim>\<open>-0\<close>, so a non-zero
  number divided by zero takes the sign of the number.
\<close>

datatype jsnum = Num real | PosInf | NegInf | NaN

instantiation jsnum :: "{plus, minus, times, inverse, ord}"
begin

fun plus_jsnum :: "jsnum \<Rightarrow> jsnum \<Rightarrow> jsnum" where
  "plus_jsnum NaN b = NaN"
| "plus_jsnum a NaN = NaN"
| "plus_jsnum (Num a) (Num b) = Num (a + b)"
| "plus_jsnum PosInf NegInf = NaN"
| "plus_jsnum NegInf PosInf = NaN"
| "plus_jsnum PosInf b = PosInf"
| "plus_jsnum a PosInf = PosInf"
| "plus_jsnum NegInf b = NegInf"
| "plus_jsnum a NegInf = NegInf"

fun minus_jsnum :: "jsnum \<Rightarrow> jsnum \<Rightarrow> jsnum" where
  "minus_jsnum NaN b = NaN"
| "minus_jsnum a NaN = NaN"
| "minus_jsnum (Num a) (Num b) = Num (a - b)"
| "minus_jsnum PosInf PosInf = NaN"
| "minus_jsnum NegInf NegInf = NaN"
| "minus_jsnum PosInf b = PosInf"
| "minus_jsnum NegInf b = NegInf"
| "minus_jsnum a PosInf = NegInf"
| "minus_jsnum a NegInf = PosInf"

fun times_jsnum :: "jsnum \<Rightarrow> jsnum \<Rightarrow> jsnum" where
  "times_jsnum NaN b = NaN"
| "times_jsnum a NaN = NaN"
| "times_jsnum (Num a) (Num b) = Num (a * b)"
| "times_jsnum PosInf (Num b) = (if b = 0 then NaN else if 0 < b then PosInf else NegInf)"
| "times_jsnum NegInf (Num b) = (if b = 0 then NaN else if 0 < b then NegInf else PosInf)"
| "times_jsnum (Num a) PosInf = (if a = 0 then NaN else if 0 < a then PosInf else NegInf)"
| "times_jsnum (Num a) NegInf = (if a = 0 then NaN else if 0 < a then NegInf else PosInf)"
| "times_jsnum PosInf PosInf = PosInf"
| "times_jsnum NegInf NegInf = PosInf"
| "times_jsnum PosInf NegInf = NegInf"
| "times_jsnum NegInf PosInf = NegInf"

fun divide_jsnum :: "jsnum \<Rightarrow> jsnum \<Rightarrow> jsnum" where
  "divide_jsnum NaN b = NaN"
| "divide_jsnum a NaN = NaN"
| "divide_jsnum (Num a) (Num b) =
     (if b \<noteq> 0 then Num (a / b)
      else if 0 < a then PosInf else if a < 0 then NegInf else NaN)"
| "divide_jsnum (Num a) b = Num 0"
| "divide_jsnum PosInf (Num b) = (if 0 \<le> b then PosInf else NegInf)"
| "divide_jsnum NegInf (Num b) = (if 0 \<le> b then NegInf else PosInf)"
| "divide_jsnum a b = NaN"

definition inverse_jsnum :: "jsnum \<Rightarrow> jsnum" where
  "inverse_jsnum a = divide (Num 1) a"

fun less_jsnum :: "jsnum \<Rightarrow> jsnum \<Rightarrow> bool" where
  "less_jsnum NaN b = False"
| "less_jsnum a NaN = False"
| "less_jsnum (Num a) (Num b) = (a < b)"
| "less_jsnum a NegInf = False"
| "less_jsnum PosInf b = False"
| "less_jsnum a b = True"

fun less_eq_jsnum :: "jsnum \<Rightarrow> jsnum \<Rightarrow> bool" where
  "less_eq_jsnum NaN b = False"
| "less_eq_jsnum a NaN = False"
| "less_eq_jsnum (Num a) (Num b) = (a \<le> b)"
| "less_eq_jsnum NegInf b = True"
| "less_eq_jsnum a PosInf = True"
| "less_eq_jsnum a b = False"

instance ..

end

text \<open>\<^verbatim>\<open>Math.max\<close> and \<^verbatim>\<open>Math.min\<close> of two arguments: \<^verbatim>\<open>NaN\<close> if either argument is.\<close>

fun Math_max :: "jsnum \<Rightarrow> jsnum \<Rightarrow> jsnum" where
  "Math_max NaN b = NaN"
| "Math_max a NaN = NaN"
| "Math_max (Num a) (Num b) = Num (max a b)"
| "Math_max PosInf b = PosInf"
| "Math_max a PosInf = PosInf"
| "Math_max NegInf b = b"
| "Math_max a NegInf = a"

fun Math_min :: "jsnum \<Rightarrow> jsnum \<Rightarrow> jsnum" where
  "Math_min NaN b = NaN"
| "Math_min a NaN = NaN"
| "Math_min (Num a) (Num b) = Num (min a b)"
| "Math_min NegInf b = NegInf"
| "Math_min a NegInf = NegInf"
| "Math_min PosInf b = b"
| "Math_min a PosInf = a"

text \<open>The finite number a value is, if it is one.\<close>

fun num_of :: "jsnum \<Rightarrow> real option" where
  "num_of (Num r) = Some r"
| "num_of a = None"

text \<open>
  The result of a handler that stores numbers in the state: \<open>Finite s\<close> when every number
  it stores is finite, with \<open>s\<close> the state after the handler; \<open>NonFinite\<close> when it stores
  \<^verbatim>\<open>NaN\<close> or an infinity, which no state of the model holds, so that the model does not
  follow the component further.
\<close>

datatype 'a js = Finite 'a | NonFinite

text \<open>\<^verbatim>\<open>getBoundingClientRect()\<close>: the fields the handlers read.\<close>

record DOMRect =
  rect_left :: real
  rect_top :: real
  rect_width :: real
  rect_height :: real

text \<open>A mouse event: pointer position and the button that changed (0 is the main button).\<close>

record MouseEvent =
  clientX :: real
  clientY :: real
  button :: nat

text \<open>\<^verbatim>\<open>String.prototype.includes\<close>: the argument occurs as a contiguous substring.\<close>

definition str_includes :: "string \<Rightarrow> string \<Rightarrow> bool" where
  "str_includes s sub = sublist sub s"

text \<open>Truthiness of a \<^verbatim>\<open>string | null\<close>: \<^verbatim>\<open>null\<close> and the empty string are falsy.\<close>

fun truthy :: "string option \<Rightarrow> bool" where
  "truthy None = False"
| "truthy (Some s) = (s \<noteq> [])"

text \<open>
  The names of the window listeners a controller registers. A controller's listener effect is
  modelled by the list of event names it has registered on \<^verbatim>\<open>window\<close> after React has
  committed a render: the cleanup of the previous effect removes every listener of the
  controller, then the effect body adds the ones its condition allows.
\<close>

type_synonym listeners = "string list"


section \<open>Crop box controller\<close>

text \<open>
  A rectangle \<^verbatim>\<open>{ x, y, width, height }\<close> in percent of the container. The \<^verbatim>\<open>cropState\<close> the
  parent holds has finite fields; the rectangle \<^verbatim>\<open>handleMouseMove\<close> computes has \<open>jsnum\<close>
  fields.
\<close>

record 'n CropRect =
  crop_x :: 'n
  crop_y :: 'n
  crop_width :: 'n
  crop_height :: 'n

type_synonym CropState = "real CropRect"

definition num_rect :: "CropState \<Rightarrow> jsnum CropRect" where
  "num_rect c =
     \<lparr>crop_x = Num (crop_x c), crop_y = Num (crop_y c),
      crop_width = Num (crop_width c), crop_height = Num (crop_height c)\<rparr>"

definition rect_of :: "jsnum CropRect \<Rightarrow> CropState option" where
  "rect_of c =
     (case (num_of (crop_x c), num_of (crop_y c), num_of (crop_width c), num_of (crop_height c)) of
        (Some x, Some y, Some w, Some h) \<Rightarrow>
          Some \<lparr>crop_x = x, crop_y = y, crop_width = w, crop_height = h\<rparr>
      | _ \<Rightarrow> None)"

text \<open>\<^verbatim>\<open>dragStart.current = { mouseX, mouseY, ...cropState }\<close>\<close>

record CropDragStart =
  start_mouseX :: real
  start_mouseY :: real
  start_crop :: CropState

text \<open>
  The state of one mounted \<^verbatim>\<open>CropBox\<close>: its two \<^verbatim>\<open>useState\<close> cells, the \<^verbatim>\<open>dragStart\<close> ref,
  the \<^verbatim>\<open>cropState\<close> prop (owned by the parent, written through \<^verbatim>\<open>setCropState\<close>) and the
  window listeners of its effect.
\<close>

record CropBox =
  cb_isDragging :: bool
  cb_resizeHandle :: "string option"
  cb_dragStart :: CropDragStart
  cb_cropState :: CropState
  cb_listeners :: listeners

definition handles :: "string list" where
  "handles = [''top-left'', ''top-right'', ''bottom-left'', ''bottom-right'',
              ''top'', ''bottom'', ''left'', ''right'']"

text \<open>
  \<^verbatim>\<open>handleMouseDown(e, handle)\<close> (lines 136-142). The event's button is not read.
\<close>

definition CropBox_handleMouseDown :: "MouseEvent \<Rightarrow> string option \<Rightarrow> CropBox \<Rightarrow> CropBox" where
  "CropBox_handleMouseDown e handle s =
     s\<lparr>cb_resizeHandle := handle,
       cb_isDragging := \<not> truthy handle,
       cb_dragStart := \<lparr>start_mouseX = clientX e, start_mouseY = clientY e,
                        start_crop = cb_cropState s\<rparr>\<rparr>"

text \<open>
  Lines 151-161 of \<^verbatim>\<open>handleMouseMove\<close>: the candidate rectangle, from the snapshot and the
  percent deltas, before any clamp.
\<close>

definition crop_candidate ::
    "bool \<Rightarrow> string option \<Rightarrow> jsnum CropRect \<Rightarrow> jsnum \<Rightarrow> jsnum \<Rightarrow> jsnum CropRect" where
  "crop_candidate isDragging resizeHandle snap dx dy =
     (if isDragging then
        snap\<lparr>crop_x := crop_x snap + dx, crop_y := crop_y snap + dy\<rparr>
      else if truthy resizeHandle then
        (let h = the resizeHandle;
             c1 = (if str_includes h ''right''
                   then snap\<lparr>crop_width := crop_width snap + dx\<rparr> else snap);
             c2 = (if str_includes h ''left''
                   then c1\<lparr>crop_width := crop_width c1 - dx, crop_x := crop_x c1 + dx\<rparr> else c1);
             c3 = (if str_includes h ''bottom''
                   then c2\<lparr>crop_height := crop_height c2 + dy\<rparr> else c2);
             c4 = (if str_includes h ''top''
                   then c3\<lparr>crop_height := crop_height c3 - dy, crop_y := crop_y c3 + dy\<rparr> else c3)
         in c4)
      else snap)"

text \<open>Lines 163-168: the clamps, size first, then position against the clamped size.\<close>

definition crop_clamp :: "jsnum CropRect \<Rightarrow> jsnum CropRect" where
  "crop_clamp c =
     (let width = Math_max (Num 5) (Math_min (Num 100) (crop_width c));
          height = Math_max (Num 5) (Math_min (Num 100) (crop_height c));
          x = Math_max (Num 0) (Math_min (Num 100 - width) (crop_x c));
          y = Math_max (Num 0) (Math_min (Num 100 - height) (crop_y c))
      in \<lparr>crop_x = x, crop_y = y, crop_width = width, crop_height = height\<rparr>)"

text \<open>
  Lines 147-161 of \<^verbatim>\<open>handleMouseMove\<close>: the pointer deltas since the snapshot, in percent of
  the container's bounding rectangle, and the candidate they give.
\<close>

definition CropBox_move_candidate :: "DOMRect \<Rightarrow> MouseEvent \<Rightarrow> CropBox \<Rightarrow> jsnum CropRect" where
  "CropBox_move_candidate rect e s =
     (let dx = ((Num (clientX e) - Num (start_mouseX (cb_dragStart s))) / Num (rect_width rect))
                 * Num 100;
          dy = ((Num (clientY e) - Num (start_mouseY (cb_dragStart s))) / Num (rect_height rect))
                 * Num 100
      in crop_candidate (cb_isDragging s) (cb_resizeHandle s)
           (num_rect (start_crop (cb_dragStart s))) dx dy)"

text \<open>\<^verbatim>\<open>setCropState({ x, y, width, height })\<close> (line 171), called by \<^verbatim>\<open>handleMouseMove\<close>.\<close>

definition setCropState :: "jsnum CropRect \<Rightarrow> CropBox \<Rightarrow> CropBox js" where
  "setCropState c s =
     (case rect_of c of Some r \<Rightarrow> Finite (s\<lparr>cb_cropState := r\<rparr>) | None \<Rightarrow> NonFinite)"

text \<open>
  \<^verbatim>\<open>handleMouseMove(e)\<close> (lines 144-172). \<open>containerRef\<close> is \<open>None\<close> when
  \<^verbatim>\<open>containerRef.current\<close> is null (early return), otherwise the container's bounding
  rectangle.
\<close>

definition CropBox_handleMouseMove :: "DOMRect option \<Rightarrow> MouseEvent \<Rightarrow> CropBox \<Rightarrow> CropBox js" where
  "CropBox_handleMouseMove containerRef e s =
     (case containerRef of
        None \<Rightarrow> Finite s
      | Some rect \<Rightarrow> setCropState (crop_clamp (CropBox_move_candidate rect e s)) s)"

definition CropBox_handleMouseUp :: "CropBox \<Rightarrow> CropBox" where
  "CropBox_handleMouseUp s = s\<lparr>cb_isDragging := False, cb_resizeHandle := None\<rparr>"

text \<open>The crop invariants of the data model.\<close>

definition crop_inv :: "CropState \<Rightarrow> bool" where
  "crop_inv c \<longleftrightarrow>
     5 \<le> crop_width c \<and> crop_width c \<le> 100 \<and>
     5 \<le> crop_height c \<and> crop_height c \<le> 100 \<and>
     0 \<le> crop_x c \<and> crop_x c \<le> 100 - crop_width c \<and>
     0 \<le> crop_y c \<and> crop_y c \<le> 100 - crop_height c"


text \<open>
  \<open>x_unclamped\<close> and \<open>y_unclamped\<close> say that no clamp of lines 164-168 binds on an axis: the
  candidate's size and position on that axis are finite and already lie within the limits.
\<close>

definition x_unclamped :: "jsnum CropRect \<Rightarrow> bool" where
  "x_unclamped c \<longleftrightarrow>
     (case (crop_width c, crop_x c) of
        (Num w, Num x) \<Rightarrow> 5 \<le> w \<and> w \<le> 100 \<and> 0 \<le> x \<and> x \<le> 100 - w
      | _ \<Rightarrow> False)"

definition y_unclamped :: "jsnum CropRect \<Rightarrow> bool" where
  "y_unclamped c \<longleftrightarrow>
     (case (crop_height c, crop_y c) of
        (Num h, Num y) \<Rightarrow> 5 \<le> h \<and> h \<le> 100 \<and> 0 \<le> y \<and> y \<le> 100 - h
      | _ \<Rightarrow> False)"

text \<open>
  The listener effect (lines 179-188), as React runs it when it commits a render: the cleanup
  of the previous run removes \<^verbatim>\<open>mousemove\<close> and \<^verbatim>\<open>mouseup\<close>, the body adds them again when
  \<^verbatim>\<open>isDragging || resizeHandle\<close>.
\<close>

definition removeEventListeners :: "string list \<Rightarrow> listeners \<Rightarrow> listeners" where
  "removeEventListeners names ls = filter (\<lambda>n. n \<notin> set names) ls"

definition addEventListeners :: "string list \<Rightarrow> listeners \<Rightarrow> listeners" where
  "addEventListeners names ls = ls @ names"

definition CropBox_effect :: "CropBox \<Rightarrow> CropBox" where
  "CropBox_effect s =
     (let cleaned = removeEventListeners [''mousemove'', ''mouseup''] (cb_listeners s)
      in s\<lparr>cb_listeners :=
             (if cb_isDragging s \<or> truthy (cb_resizeHandle s)
              then addEventListeners [''mousemove'', ''mouseup''] cleaned else cleaned)\<rparr>)"

text \<open>
  Mounting runs the effect on the initial state (\<^verbatim>\<open>useState(false)\<close>, \<^verbatim>\<open>useState(null)\<close>, the
  ref initialised from the \<^verbatim>\<open>cropState\<close> prop).
\<close>

definition CropBox_mount :: "CropState \<Rightarrow> CropBox" where
  "CropBox_mount c =
     CropBox_effect
       \<lparr>cb_isDragging = False, cb_resizeHandle = None,
        cb_dragStart = \<lparr>start_mouseX = 0, start_mouseY = 0, start_crop = c\<rparr>,
        cb_cropState = c, cb_listeners = []\<rparr>"

text \<open>
  The events a mounted crop box receives. A mouse-down reaches \<^verbatim>\<open>handleMouseDown\<close> through the
  box (\<open>None\<close>) or one of its handles; \<^verbatim>\<open>mousemove\<close> and \<^verbatim>\<open>mouseup\<close> on the window reach their
  handlers only while the listener is registered. React commits the render and runs the
  effect before the next event is dispatched.
\<close>

datatype crop_event =
    CropMouseDown MouseEvent "string option"
  | CropWindowMouseMove "DOMRect option" MouseEvent
  | CropWindowMouseUp

fun CropBox_step :: "crop_event \<Rightarrow> CropBox \<Rightarrow> CropBox js" where
  "CropBox_step (CropMouseDown e handle) s =
     Finite (CropBox_effect (CropBox_handleMouseDown e handle s))"
| "CropBox_step (CropWindowMouseMove containerRef e) s =
     (if ''mousemove'' \<in> set (cb_listeners s)
      then map_js CropBox_effect (CropBox_handleMouseMove containerRef e s)
      else Finite s)"
| "CropBox_step CropWindowMouseUp s =
     (if ''mouseup'' \<in> set (cb_listeners s)
      then Finite (CropBox_effect (CropBox_handleMouseUp s))
      else Finite s)"

text \<open>Running a list of events in order; a step that stores a non-finite number ends the run.\<close>

fun run_events :: "('e \<Rightarrow> 's \<Rightarrow> 's js) \<Rightarrow> 'e list \<Rightarrow> 's \<Rightarrow> 's js" where
  "run_events step [] s = Finite s"
| "run_events step (e # es) s =
     (case step e s of NonFinite \<Rightarrow> NonFinite | Finite s' \<Rightarrow> run_events step es s')"

text \<open>
  A complete crop gesture over a container that stays in place: mouse-down on the box or a
  handle, the pointer moves, mouse-up.
\<close>

definition CropBox_gesture ::
    "DOMRect option \<Rightarrow> MouseEvent \<Rightarrow> string option \<Rightarrow> MouseEvent list \<Rightarrow> CropBox \<Rightarrow> CropBox js" where
  "CropBox_gesture containerRef down handle moves s =
     run_events CropBox_step
       (CropMouseDown down handle # map (CropWindowMouseMove containerRef) moves @ [CropWindowMouseUp]) s"


section \<open>Draggable text overlay\<close>

record TextOverlayState =
  to_text :: string
  to_color :: string
  to_size :: real
  to_font :: string
  to_x :: real
  to_y :: real

text \<open>\<^verbatim>\<open>dragStartPos.current = { x, y, textX, textY }\<close>\<close>

record TextDragStart =
  tds_x :: real
  tds_y :: real
  tds_textX :: real
  tds_textY :: real

record DraggableText =
  dt_isDragging :: bool
  dt_dragStartPos :: TextDragStart
  dt_textOverlay :: TextOverlayState
  dt_listeners :: listeners

text \<open>
  \<^verbatim>\<open>handleDragStart(clientX, clientY)\<close> (lines 23-36). \<open>containerRef\<close> and \<open>textRef\<close> are \<open>None\<close>
  when the ref is null, otherwise the element's bounding rectangle.
\<close>

definition DraggableText_handleDragStart ::
    "DOMRect option \<Rightarrow> DOMRect option \<Rightarrow> real \<Rightarrow> real \<Rightarrow> DraggableText \<Rightarrow> DraggableText" where
  "DraggableText_handleDragStart containerRef textRef cx cy s =
     (case (containerRef, textRef) of
        (Some containerRect, Some textRect) \<Rightarrow>
          s\<lparr>dt_isDragging := True,
            dt_dragStartPos :=
              \<lparr>tds_x = cx, tds_y = cy,
               tds_textX = rect_left textRect - rect_left containerRect,
               tds_textY = rect_top textRect - rect_top containerRect\<rparr>\<rparr>
      | _ \<Rightarrow> s)"

text \<open>\<^verbatim>\<open>onMouseDown(e)\<close> (lines 38-41). The event's button is not read.\<close>

definition DraggableText_onMouseDown ::
    "DOMRect option \<Rightarrow> DOMRect option \<Rightarrow> MouseEvent \<Rightarrow> DraggableText \<Rightarrow> DraggableText" where
  "DraggableText_onMouseDown containerRef textRef e s =
     DraggableText_handleDragStart containerRef textRef (clientX e) (clientY e) s"

text \<open>\<^verbatim>\<open>handleDragMove(clientX, clientY)\<close> (lines 47-61).\<close>

definition DraggableText_handleDragMove ::
    "DOMRect option \<Rightarrow> real \<Rightarrow> real \<Rightarrow> DraggableText \<Rightarrow> DraggableText js" where
  "DraggableText_handleDragMove containerRef cx cy s =
     (if \<not> dt_isDragging s then Finite s
      else case containerRef of
        None \<Rightarrow> Finite s
      | Some containerRect \<Rightarrow>
          (let dx = cx - tds_x (dt_dragStartPos s);
               dy = cy - tds_y (dt_dragStartPos s);
               newX = tds_textX (dt_dragStartPos s) + dx;
               newY = tds_textY (dt_dragStartPos s) + dy;
               newXPercent =
                 Math_max (Num 0)
                   (Math_min (Num 100) ((Num newX / Num (rect_width containerRect)) * Num 100));
               newYPercent =
                 Math_max (Num 0)
                   (Math_min (Num 100) ((Num newY / Num (rect_height containerRect)) * Num 100))
           in case (num_of newXPercent, num_of newYPercent) of
                (Some x, Some y) \<Rightarrow>
                  Finite (s\<lparr>dt_textOverlay := (dt_textOverlay s)\<lparr>to_x := x, to_y := y\<rparr>\<rparr>)
              | _ \<Rightarrow> NonFinite))"

definition DraggableText_handleDragEnd :: "DraggableText \<Rightarrow> DraggableText" where
  "DraggableText_handleDragEnd s = s\<lparr>dt_isDragging := False\<rparr>"

text \<open>
  The bounding rectangle of the rendered text element. This is CSS layout, not code of the
  component: it reads the inline style of lines 98-101 (\<^verbatim>\<open>left: x%\<close>, \<^verbatim>\<open>top: y%\<close>,
  \<^verbatim>\<open>transform: translate(-50%, -50%)\<close>) for an absolutely positioned element of size \<open>w\<close> by
  \<open>h\<close> inside the container: the element's centre sits at (x%, y%) of the container.
\<close>

definition DraggableText_boundingRect ::
    "DOMRect \<Rightarrow> TextOverlayState \<Rightarrow> real \<Rightarrow> real \<Rightarrow> DOMRect" where
  "DraggableText_boundingRect containerRect overlay w h =
     \<lparr>rect_left = rect_left containerRect + (to_x overlay / 100) * rect_width containerRect - w / 2,
      rect_top = rect_top containerRect + (to_y overlay / 100) * rect_height containerRect - h / 2,
      rect_width = w, rect_height = h\<rparr>"

text \<open>The listener effect (lines 67-88).\<close>

definition DraggableText_effect :: "DraggableText \<Rightarrow> DraggableText" where
  "DraggableText_effect s =
     (let cleaned = removeEventListeners [''mousemove'', ''mouseup'', ''touchmove'', ''touchend'']
                      (dt_listeners s)
      in s\<lparr>dt_listeners :=
             (if dt_isDragging s
              then addEventListeners [''mousemove'', ''mouseup'', ''touchmove'', ''touchend''] cleaned
              else cleaned)\<rparr>)"

definition DraggableText_mount :: "TextOverlayState \<Rightarrow> DraggableText" where
  "DraggableText_mount overlay =
     DraggableText_effect
       \<lparr>dt_isDragging = False,
        dt_dragStartPos = \<lparr>tds_x = 0, tds_y = 0, tds_textX = 0, tds_textY = 0\<rparr>,
        dt_textOverlay = overlay, dt_listeners = []\<rparr>"

text \<open>
  The mouse events a mounted text overlay receives (its touch listeners call the same
  \<^verbatim>\<open>handleDragStart\<close>, \<^verbatim>\<open>handleDragMove\<close> and \<^verbatim>\<open>handleDragEnd\<close> with the first touch point).
\<close>

datatype text_event =
    TextMouseDown "DOMRect option" "DOMRect option" MouseEvent
  | TextWindowMouseMove "DOMRect option" MouseEvent
  | TextWindowMouseUp

fun DraggableText_step :: "text_event \<Rightarrow> DraggableText \<Rightarrow> DraggableText js" where
  "DraggableText_step (TextMouseDown containerRef textRef e) s =
     Finite (DraggableText_effect (DraggableText_onMouseDown containerRef textRef e s))"
| "DraggableText_step (TextWindowMouseMove containerRef e) s =
     (if ''mousemove'' \<in> set (dt_listeners s)
      then map_js DraggableText_effect
             (DraggableText_handleDragMove containerRef (clientX e) (clientY e) s)
      else Finite s)"
| "DraggableText_step TextWindowMouseUp s =
     (if ''mouseup'' \<in> set (dt_listeners s)
      then Finite (DraggableText_effect (DraggableText_handleDragEnd s))
      else Finite s)"

text \<open>
  A complete text drag over a container that stays in place; the text element measures
  \<open>w\<close> by \<open>h\<close> and is laid out from the overlay state at mouse-down.
\<close>

definition DraggableText_gesture ::
    "DOMRect \<Rightarrow> real \<Rightarrow> real \<Rightarrow> MouseEvent \<Rightarrow> MouseEvent list \<Rightarrow> DraggableText \<Rightarrow> DraggableText js" where
  "DraggableText_gesture containerRect w h down moves s =
     run_events DraggableText_step
       (TextMouseDown (Some containerRect)
          (Some (DraggableText_boundingRect containerRect (dt_textOverlay s) w h)) down
        # map (TextWindowMouseMove (Some containerRect)) moves @ [TextWindowMouseUp]) s"


section \<open>Image comparator\<close>

text \<open>
  \<^verbatim>\<open>sliderPosition\<close> is React state, \<^verbatim>\<open>isDragging\<close> a ref. The pointer's \<^verbatim>\<open>clientX\<close> is read
  from the mouse event or from the first touch point.
\<close>

record ImageComparator =
  ic_sliderPosition :: real
  ic_isDragging :: bool
  ic_listeners :: listeners

text \<open>
  \<^verbatim>\<open>moveSlider(clientX)\<close> (lines 265-271). Over a container of width 0 the clamped \<open>x\<close> is 0
  and \<open>percent\<close> is 0 / 0, that is \<^verbatim>\<open>NaN\<close>, whatever the pointer position.
\<close>

definition ImageComparator_moveSlider ::
    "DOMRect option \<Rightarrow> real \<Rightarrow> ImageComparator \<Rightarrow> ImageComparator js" where
  "ImageComparator_moveSlider containerRef cx s =
     (case containerRef of
        None \<Rightarrow> Finite s
      | Some rect \<Rightarrow>
          if rect_width rect = 0 then NonFinite
          else
            (let x = max 0 (min (cx - rect_left rect) (rect_width rect));
                 percent = (x / rect_width rect) * 100
             in Finite (s\<lparr>ic_sliderPosition := percent\<rparr>)))"

text \<open>\<^verbatim>\<open>handleInteractionStart(e)\<close> (lines 258-263).\<close>

definition ImageComparator_handleInteractionStart ::
    "DOMRect option \<Rightarrow> real \<Rightarrow> ImageComparator \<Rightarrow> ImageComparator js" where
  "ImageComparator_handleInteractionStart containerRef cx s =
     ImageComparator_moveSlider containerRef cx (s\<lparr>ic_isDragging := True\<rparr>)"

text \<open>\<^verbatim>\<open>handleInteractionMove(e)\<close> and \<^verbatim>\<open>handleInteractionEnd()\<close> (lines 274-282).\<close>

definition ImageComparator_handleInteractionMove ::
    "DOMRect option \<Rightarrow> real \<Rightarrow> ImageComparator \<Rightarrow> ImageComparator js" where
  "ImageComparator_handleInteractionMove containerRef cx s =
     (if \<not> ic_isDragging s then Finite s else ImageComparator_moveSlider containerRef cx s)"

definition ImageComparator_handleInteractionEnd :: "ImageComparator \<Rightarrow> ImageComparator" where
  "ImageComparator_handleInteractionEnd s = s\<lparr>ic_isDragging := False\<rparr>"

text \<open>
  The listener effect (lines 273-295) has an empty dependency list: its body runs once, when
  the component mounts, and adds the four listeners unconditionally; its cleanup runs when
  the component unmounts.
\<close>

definition ImageComparator_mount :: ImageComparator where
  "ImageComparator_mount =
     \<lparr>ic_sliderPosition = 50, ic_isDragging = False,
      ic_listeners = addEventListeners [''mousemove'', ''touchmove'', ''mouseup'', ''touchend''] []\<rparr>"

definition ImageComparator_unmount :: "ImageComparator \<Rightarrow> ImageComparator" where
  "ImageComparator_unmount s =
     s\<lparr>ic_listeners :=
         removeEventListeners [''mousemove'', ''touchmove'', ''mouseup'', ''touchend''] (ic_listeners s)\<rparr>"

datatype comparator_event =
    ComparatorPointerDown "DOMRect option" real
  | ComparatorWindowMove "DOMRect option" real
  | ComparatorWindowEnd

fun ImageComparator_step :: "comparator_event \<Rightarrow> ImageComparator \<Rightarrow> ImageComparator js" where
  "ImageComparator_step (ComparatorPointerDown containerRef cx) s =
     ImageComparator_handleInteractionStart containerRef cx s"
| "ImageComparator_step (ComparatorWindowMove containerRef cx) s =
     (if ''mousemove'' \<in> set (ic_listeners s)
      then ImageComparator_handleInteractionMove containerRef cx s
      else Finite s)"
| "ImageComparator_step ComparatorWindowEnd s =
     (if ''mouseup'' \<in> set (ic_listeners s)
      then Finite (ImageComparator_handleInteractionEnd s)
      else Finite s)"

definition ImageComparator_gesture ::
    "DOMRect option \<Rightarrow> real \<Rightarrow> real list \<Rightarrow> ImageComparator \<Rightarrow> ImageComparator js" where
  "ImageComparator_gesture containerRef down moves s =
     run_events ImageComparator_step
       (ComparatorPointerDown containerRef down
        # map (ComparatorWindowMove containerRef) moves @ [ComparatorWindowEnd]) s"


section \<open>Right panel: fit, zoom and pan\<close>

record Transform =
  t_scale :: real
  t_x :: real
  t_y :: real

record ImageMetrics =
  m_width :: real
  m_height :: real
  m_initialX :: real
  m_initialY :: real

text \<open>\<^verbatim>\<open>panStart.current = { startX, startY, initialX, initialY }\<close>\<close>

record PanStart =
  pan_startX :: real
  pan_startY :: real
  pan_initialX :: real
  pan_initialY :: real

record PanZoom =
  pz_transform :: Transform
  pz_initialImageMetrics :: ImageMetrics
  pz_isPanning :: bool
  pz_panStart :: PanStart

text \<open>What \<^verbatim>\<open>updateFit\<close> reads of the image element and of the container element.\<close>

record HTMLImage =
  img_complete :: bool
  naturalWidth :: nat
  naturalHeight :: nat

record Container =
  clientWidth :: nat
  clientHeight :: nat

text \<open>
  \<^verbatim>\<open>updateFit()\<close> (lines 531-551). \<open>img\<close> and \<open>container\<close> are \<open>None\<close> when the ref is null. The
  two ratios divide by the container's height and by the image's natural height, either of
  which may be 0.
\<close>

definition updateFit :: "HTMLImage option \<Rightarrow> Container option \<Rightarrow> PanZoom \<Rightarrow> PanZoom js" where
  "updateFit img container s =
     (case (img, container) of
        (Some i, Some c) \<Rightarrow>
          if \<not> img_complete i \<or> naturalWidth i = 0 then Finite s
          else
            (let cRatio = Num (real (clientWidth c)) / Num (real (clientHeight c));
                 iRatio = Num (real (naturalWidth i)) / Num (real (naturalHeight i));
                 height = (if cRatio > iRatio then Num (real (clientHeight c))
                           else Num (real (clientWidth c)) / iRatio);
                 width = (if cRatio > iRatio then Num (real (clientHeight c)) * iRatio
                          else Num (real (clientWidth c)));
                 left = (Num (real (clientWidth c)) - width) / Num 2;
                 top = 0
             in case (num_of width, num_of height, num_of left) of
                  (Some w, Some h, Some l) \<Rightarrow>
                    Finite (s\<lparr>pz_initialImageMetrics :=
                                \<lparr>m_width = w, m_height = h, m_initialX = l, m_initialY = top\<rparr>,
                              pz_transform := \<lparr>t_scale = 1, t_x = l, t_y = top\<rparr>\<rparr>)
                | _ \<Rightarrow> NonFinite)
      | _ \<Rightarrow> Finite s)"

text \<open>\<^verbatim>\<open>handleResetTransform()\<close> (lines 570-576).\<close>

definition handleResetTransform :: "PanZoom \<Rightarrow> PanZoom" where
  "handleResetTransform s =
     s\<lparr>pz_transform := \<lparr>t_scale = 1, t_x = m_initialX (pz_initialImageMetrics s),
                         t_y = m_initialY (pz_initialImageMetrics s)\<rparr>\<rparr>"

record WheelEvent = MouseEvent +
  deltaY :: real

text \<open>
  \<^verbatim>\<open>handleWheel(e)\<close> (lines 578-599). \<open>canZoomPan\<close> is the flag the render computed,
  \<open>containerRef\<close> the bounding rectangle of the image container (\<open>None\<close> when the ref is null).
  The image-space point divides by the current scale: at scale 0 \<open>imageX\<close> and \<open>imageY\<close> are
  infinite or \<^verbatim>\<open>NaN\<close>, and so are the \<open>newX\<close> and \<open>newY\<close> the handler stores.
\<close>

definition handleWheel :: "bool \<Rightarrow> DOMRect option \<Rightarrow> 'a WheelEvent_scheme \<Rightarrow> PanZoom \<Rightarrow> PanZoom js" where
  "handleWheel canZoomPan containerRef e s =
     (if \<not> canZoomPan then Finite s
      else case containerRef of
        None \<Rightarrow> Finite s
      | Some rectContainer \<Rightarrow>
          (let scale = t_scale (pz_transform s);
               x = t_x (pz_transform s);
               y = t_y (pz_transform s);
               zoomIntensity = 0.001;
               mouseX = clientX e - rect_left rectContainer;
               mouseY = clientY e - rect_top rectContainer
           in if scale = 0 then NonFinite
              else
                (let imageX = (mouseX - x) / scale;
                     imageY = (mouseY - y) / scale;
                     newScale = max 0.5 (min 10 (scale - deltaY e * zoomIntensity));
                     newX = mouseX - imageX * newScale;
                     newY = mouseY - imageY * newScale
                 in Finite (s\<lparr>pz_transform := \<lparr>t_scale = newScale, t_x = newX, t_y = newY\<rparr>\<rparr>))))"

text \<open>
  \<^verbatim>\<open>handleMouseDown(e)\<close> of the pan surface (lines 601-615). \<open>targetInTool\<close> says whether
  \<^verbatim>\<open>target.closest('.draggable-text, .crop-handle, .text-delete-button')\<close> found an element.
\<close>

definition RightPanel_handleMouseDown :: "bool \<Rightarrow> bool \<Rightarrow> MouseEvent \<Rightarrow> PanZoom \<Rightarrow> PanZoom" where
  "RightPanel_handleMouseDown canZoomPan targetInTool e s =
     (if \<not> canZoomPan \<or> button e \<noteq> 0 then s
      else if targetInTool then s
      else s\<lparr>pz_isPanning := True,
             pz_panStart := \<lparr>pan_startX = clientX e, pan_startY = clientY e,
                              pan_initialX = t_x (pz_transform s),
                              pan_initialY = t_y (pz_transform s)\<rparr>\<rparr>)"

text \<open>The window listeners of the pan effect (lines 618-630).\<close>

definition RightPanel_handleMouseMove :: "MouseEvent \<Rightarrow> PanZoom \<Rightarrow> PanZoom" where
  "RightPanel_handleMouseMove e s =
     (if \<not> pz_isPanning s then s
      else
        (let dx = clientX e - pan_startX (pz_panStart s);
             dy = clientY e - pan_startY (pz_panStart s)
         in s\<lparr>pz_transform := (pz_transform s)\<lparr>t_x := pan_initialX (pz_panStart s) + dx,
                                                 t_y := pan_initialY (pz_panStart s) + dy\<rparr>\<rparr>))"

definition RightPanel_handleMouseUp :: "PanZoom \<Rightarrow> PanZoom" where
  "RightPanel_handleMouseUp s = s\<lparr>pz_isPanning := False\<rparr>"


section \<open>Right panel: rasterised export\<close>

datatype format = png | jpeg

record DownloadOptions =
  opt_scale :: nat
  opt_format :: format
  opt_quality :: nat

text \<open>
  The calls \<^verbatim>\<open>image.onload\<close> makes on the 2D context, in order, and the canvas they draw on.
\<close>

datatype canvas_call =
    SetFillStyle string
  | FillRect nat nat nat nat
  | SetImageSmoothingQuality string
  | DrawImage nat nat nat nat

record Canvas =
  canvas_width :: nat
  canvas_height :: nat
  canvas_calls :: "canvas_call list"

text \<open>Lines 660-673: the canvas set-up and the drawing, once a 2D context exists.\<close>

definition export_canvas :: "HTMLImage \<Rightarrow> DownloadOptions \<Rightarrow> Canvas" where
  "export_canvas img options =
     (let width = naturalWidth img * opt_scale options;
          height = naturalHeight img * opt_scale options
      in \<lparr>canvas_width = width, canvas_height = height,
          canvas_calls =
            (if opt_format options = jpeg
             then [SetFillStyle ''#FFFFFF'', FillRect 0 0 width height] else [])
            @ [SetImageSmoothingQuality ''high'', DrawImage 0 0 width height]\<rparr>)"

text \<open>
  What the calls paint. This is the Canvas 2D API, not code of the component: a canvas starts
  transparent black, \<^verbatim>\<open>fillRect\<close> and \<^verbatim>\<open>drawImage\<close> composite with the default
  \<^verbatim>\<open>source-over\<close> operation inside their rectangle. A colour is (red, green, blue, alpha) with
  alpha in [0,1]; \<open>src\<close> gives the colour the scaled image has at a canvas pixel.
\<close>

type_synonym rgba = "real \<times> real \<times> real \<times> real"

definition alpha :: "rgba \<Rightarrow> real" where
  "alpha c = snd (snd (snd c))"

definition source_over :: "rgba \<Rightarrow> rgba \<Rightarrow> rgba" where
  "source_over src dst =
     (case (src, dst) of ((sr, sg, sb, sa), (dr, dg, db, da)) \<Rightarrow>
        (let a = sa + da * (1 - sa)
         in if a = 0 then (0, 0, 0, 0)
            else ((sr * sa + dr * da * (1 - sa)) / a,
                  (sg * sa + dg * da * (1 - sa)) / a,
                  (sb * sa + db * da * (1 - sa)) / a, a)))"

definition fill_colour :: "string \<Rightarrow> rgba" where
  "fill_colour style = (if style = ''#FFFFFF'' then (1, 1, 1, 1) else (0, 0, 0, 1))"

definition in_rect :: "nat \<Rightarrow> nat \<Rightarrow> nat \<Rightarrow> nat \<Rightarrow> nat \<Rightarrow> nat \<Rightarrow> bool" where
  "in_rect i j x y w h \<longleftrightarrow> x \<le> i \<and> i < x + w \<and> y \<le> j \<and> j < y + h"

text \<open>
  The colour of canvas pixel (i, j) after the calls, from the current fill style and the
  colour so far. The default fill style is black; \<^verbatim>\<open>#FFFFFF\<close> is the only style the component
  sets, and \<open>fill_colour\<close> reads any other style as that default.
\<close>

fun paint :: "(nat \<Rightarrow> nat \<Rightarrow> rgba) \<Rightarrow> nat \<Rightarrow> nat \<Rightarrow> canvas_call list \<Rightarrow> string \<Rightarrow> rgba \<Rightarrow> rgba" where
  "paint src i j [] style c = c"
| "paint src i j (SetFillStyle st # calls) style c = paint src i j calls st c"
| "paint src i j (FillRect x y w h # calls) style c =
     paint src i j calls style
       (if in_rect i j x y w h then source_over (fill_colour style) c else c)"
| "paint src i j (SetImageSmoothingQuality q # calls) style c = paint src i j calls style c"
| "paint src i j (DrawImage x y w h # calls) style c =
     paint src i j calls style
       (if in_rect i j x y w h then source_over (src i j) c else c)"

definition canvas_pixel :: "(nat \<Rightarrow> nat \<Rightarrow> rgba) \<Rightarrow> Canvas \<Rightarrow> nat \<Rightarrow> nat \<Rightarrow> rgba" where
  "canvas_pixel src canvas i j = paint src i j (canvas_calls canvas) ''#000000'' (0, 0, 0, 0)"

text \<open>
  The export state of the panel: the \<^verbatim>\<open>isProcessingDownload\<close> cell, the exports whose image
  is still loading (the promise of lines 657-689 is unsettled), the downloads triggered by
  \<^verbatim>\<open>link.click()\<close> and the messages shown by \<^verbatim>\<open>alert\<close>.
\<close>

record Download =
  dl_filename :: string
  dl_canvas :: Canvas
  dl_mimeType :: string
  dl_quality :: real

text \<open>
  \<^verbatim>\<open>alert(`${t('errorOccurred')}: ${message}`)\<close> (line 692). The translation function \<open>t\<close> is a
  prop of the panel; an alert is recorded by the key handed to \<open>t\<close> and the message that
  follows the colon.
\<close>

record Alert =
  alert_key :: string
  alert_message :: string

record Exporter =
  ex_isProcessingDownload :: bool
  ex_pending :: "DownloadOptions list"
  ex_downloads :: "Download list"
  ex_alerts :: "Alert list"

definition format_name :: "format \<Rightarrow> string" where
  "format_name f = (case f of png \<Rightarrow> ''png'' | jpeg \<Rightarrow> ''jpeg'')"

text \<open>
  \<^verbatim>\<open>handleDownloadImage(options)\<close> up to its \<^verbatim>\<open>await\<close> (lines 646-657). \<open>isProcessingDownload\<close>
  and \<open>currentImage\<close> are the values the callback closed over at the render that built it.
\<close>

definition handleDownloadImage ::
    "bool \<Rightarrow> string option \<Rightarrow> DownloadOptions \<Rightarrow> Exporter \<Rightarrow> Exporter" where
  "handleDownloadImage isProcessingDownload currentImage options s =
     (if isProcessingDownload \<or> \<not> truthy currentImage then s
      else s\<lparr>ex_isProcessingDownload := True, ex_pending := ex_pending s @ [options]\<rparr>)"

text \<open>\<^verbatim>\<open>DownloadModal.handleDownloadClick()\<close> (lines 371-374), with the panel's callback.\<close>

definition handleDownloadClick ::
    "bool \<Rightarrow> bool \<Rightarrow> string option \<Rightarrow> DownloadOptions \<Rightarrow> Exporter \<Rightarrow> Exporter" where
  "handleDownloadClick isDownloading isProcessingDownload currentImage options s =
     (if isDownloading then s
      else handleDownloadImage isProcessingDownload currentImage options s)"

text \<open>
  How the image load of a pending export ends: \<^verbatim>\<open>onerror\<close> fires, or \<^verbatim>\<open>onload\<close> fires and
  then \<^verbatim>\<open>getContext('2d')\<close> returns null, or a call of the drawing block throws, or the block
  runs to \<^verbatim>\<open>resolve()\<close>.
\<close>

datatype load_outcome =
    ImageError
  | NoContext HTMLImage
  | DrawingThrows HTMLImage string
  | Drawn HTMLImage

text \<open>
  Lines 658-697: the rest of \<^verbatim>\<open>handleDownloadImage\<close> for the oldest pending export. Every
  rejection reaches the \<^verbatim>\<open>catch\<close> (an alert with the error's message; the argument of
  \<^verbatim>\<open>image.onerror\<close> is an event, which the template of line 688 prints as \<^verbatim>\<open>[object Event]\<close>),
  and the \<^verbatim>\<open>finally\<close> block resets the flag. With no pending export there is no image load
  that could end, and nothing changes.
\<close>

definition settle_download :: "load_outcome \<Rightarrow> Exporter \<Rightarrow> Exporter" where
  "settle_download outcome s =
     (case ex_pending s of
        [] \<Rightarrow> s
      | options # rest \<Rightarrow>
          (let s1 =
             (case outcome of
                ImageError \<Rightarrow>
                  s\<lparr>ex_alerts := ex_alerts s @
                      [\<lparr>alert_key = ''errorOccurred'',
                        alert_message = ''Failed to load image for processing: [object Event]''\<rparr>]\<rparr>
              | NoContext img \<Rightarrow>
                  s\<lparr>ex_alerts := ex_alerts s @
                      [\<lparr>alert_key = ''errorOccurred'',
                        alert_message = ''Canvas context could not be created.''\<rparr>]\<rparr>
              | DrawingThrows img msg \<Rightarrow>
                  s\<lparr>ex_alerts := ex_alerts s @
                      [\<lparr>alert_key = ''errorOccurred'', alert_message = msg\<rparr>]\<rparr>
              | Drawn img \<Rightarrow>
                  s\<lparr>ex_downloads := ex_downloads s @
                      [\<lparr>dl_filename = ''ai_image_studio_download.'' @ format_name (opt_format options),
                        dl_canvas = export_canvas img options,
                        dl_mimeType = ''image/'' @ format_name (opt_format options),
                        dl_quality = real (opt_quality options) / 100\<rparr>]\<rparr>)
           in s1\<lparr>ex_isProcessingDownload := False, ex_pending := rest\<rparr>))"

text \<open>
  The events of the export: a click on the modal's download button, and the end of a pending
  image load. React renders between two events, so the modal's \<^verbatim>\<open>isDownloading\<close> prop and
  the flag the callback closed over are the current \<^verbatim>\<open>isProcessingDownload\<close>.
\<close>

datatype export_event =
    DownloadClick DownloadOptions
  | LoadSettled load_outcome

fun Exporter_step :: "string option \<Rightarrow> export_event \<Rightarrow> Exporter \<Rightarrow> Exporter" where
  "Exporter_step currentImage (DownloadClick options) s =
     handleDownloadClick (ex_isProcessingDownload s) (ex_isProcessingDownload s) currentImage options s"
| "Exporter_step currentImage (LoadSettled outcome) s = settle_download outcome s"

fun Exporter_run :: "string option \<Rightarrow> export_event list \<Rightarrow> Exporter \<Rightarrow> Exporter" where
  "Exporter_run currentImage [] s = s"
| "Exporter_run currentImage (e # es) s = Exporter_run currentImage es (Exporter_step currentImage e s)"

definition Exporter_init :: Exporter where
  "Exporter_init =
     \<lparr>ex_isProcessingDownload = False, ex_pending = [], ex_downloads = [], ex_alerts = []\<rparr>"


section \<open>Listener bookkeeping\<close>

text \<open>
  What the listener effects establish once React has committed: the text overlay and the crop
  box hold their window listeners exactly while a gesture is active, the comparator holds
  its four listeners for as long as it is mounted.
\<close>

definition text_listeners_ok :: "DraggableText \<Rightarrow> bool" where
  "text_listeners_ok s \<longleftrightarrow>
     dt_listeners s
       = (if dt_isDragging s then [''mousemove'', ''mouseup'', ''touchmove'', ''touchend''] else [])"

definition crop_listeners_ok :: "CropBox \<Rightarrow> bool" where
  "crop_listeners_ok s \<longleftrightarrow>
     cb_listeners s
       = (if cb_isDragging s \<or> truthy (cb_resizeHandle s) then [''mousemove'', ''mouseup''] else [])"

definition comparator_listeners_ok :: "ImageComparator \<Rightarrow> bool" where
  "comparator_listeners_ok s \<longleftrightarrow>
     ic_listeners s = [''mousemove'', ''touchmove'', ''mouseup'', ''touchend'']"

text \<open>
  Whether a gesture is open after a sequence of events, read off the events alone. A gesture
  starts with a pointer-down on the subject (for the text overlay one that finds both refs
  set, since \<^verbatim>\<open>handleDragStart\<close> returns early otherwise) and ends with the next pointer-up on
  the window.
\<close>

fun text_open :: "bool \<Rightarrow> text_event \<Rightarrow> bool" where
  "text_open b (TextMouseDown containerRef textRef e) =
     (b \<or> (containerRef \<noteq> None \<and> textRef \<noteq> None))"
| "text_open b (TextWindowMouseMove containerRef e) = b"
| "text_open b TextWindowMouseUp = False"

definition text_gesture_open :: "text_event list \<Rightarrow> bool" where
  "text_gesture_open es = foldl text_open False es"

fun crop_open :: "bool \<Rightarrow> crop_event \<Rightarrow> bool" where
  "crop_open b (CropMouseDown e handle) = True"
| "crop_open b (CropWindowMouseMove containerRef e) = b"
| "crop_open b CropWindowMouseUp = False"

definition crop_gesture_open :: "crop_event list \<Rightarrow> bool" where
  "crop_gesture_open es = foldl crop_open False es"

fun comparator_open :: "bool \<Rightarrow> comparator_event \<Rightarrow> bool" where
  "comparator_open b (ComparatorPointerDown containerRef cx) = True"
| "comparator_open b (ComparatorWindowMove containerRef cx) = b"
| "comparator_open b ComparatorWindowEnd = False"

definition comparator_gesture_open :: "comparator_event list \<Rightarrow> bool" where
  "comparator_gesture_open es = foldl comparator_open False es"


section \<open>Export invariant\<close>

text \<open>
  The export invariant: at most one export awaits its image, and the flag is set exactly
  while one does.
\<close>

definition export_inv :: "Exporter \<Rightarrow> bool" where
  "export_inv s \<longleftrightarrow>
     length (ex_pending s) \<le> 1 \<and> (ex_isProcessingDownload s \<longleftrightarrow> ex_pending s \<noteq> [])"


section \<open>Properties of the crop box controller\<close>

lemma rect_of_num_rect: "rect_of (num_rect c) = Some c"
  by (simp add: rect_of_def num_rect_def)

lemma num_of_Some: "num_of v = Some r \<longleftrightarrow> v = Num r"
  by (cases v) auto

lemma rect_of_Some:
  "rect_of c = Some r \<longleftrightarrow>
     crop_x c = Num (crop_x r) \<and> crop_y c = Num (crop_y r)
     \<and> crop_width c = Num (crop_width r) \<and> crop_height c = Num (crop_height r)"
  by (cases r) (auto simp add: rect_of_def num_of_Some split: option.splits)

lemma clamp_range:
  "Math_max (Num lo) (Math_min (Num hi) v) = Num r \<Longrightarrow> lo \<le> hi \<Longrightarrow> lo \<le> r \<and> r \<le> hi"
  by (cases v) auto

lemma clamp_finite:
  "v \<noteq> NaN \<Longrightarrow> \<exists>r. Math_max (Num lo) (Math_min (Num hi) v) = Num r"
  by (cases v) auto

lemma clamp_Num: "Math_max (Num lo) (Math_min (Num hi) (Num v)) = Num (max lo (min hi v))"
  by simp

lemma crop_clamp_inv:
  assumes "rect_of (crop_clamp c) = Some r"
  shows "crop_inv r"
proof -
  from assms have w: "Math_max (Num 5) (Math_min (Num 100) (crop_width c)) = Num (crop_width r)"
    and h: "Math_max (Num 5) (Math_min (Num 100) (crop_height c)) = Num (crop_height r)"
    and x: "Math_max (Num 0) (Math_min (Num 100 - Num (crop_width r)) (crop_x c)) = Num (crop_x r)"
    and y: "Math_max (Num 0) (Math_min (Num 100 - Num (crop_height r)) (crop_y c)) = Num (crop_y r)"
    by (auto simp add: rect_of_Some crop_clamp_def Let_def)
  from clamp_range [OF w] clamp_range [OF h]
  have wh: "5 \<le> crop_width r" "crop_width r \<le> 100" "5 \<le> crop_height r" "crop_height r \<le> 100"
    by simp_all
  from x wh have "0 \<le> crop_x r \<and> crop_x r \<le> 100 - crop_width r"
    by (intro clamp_range) simp_all
  moreover from y wh have "0 \<le> crop_y r \<and> crop_y r \<le> 100 - crop_height r"
    by (intro clamp_range) simp_all
  ultimately show ?thesis using wh by (simp add: crop_inv_def)
qed

lemma crop_clamp_num_rect:
  "crop_clamp (num_rect c)
     = num_rect \<lparr>crop_x = max 0 (min (100 - max 5 (min 100 (crop_width c))) (crop_x c)),
                 crop_y = max 0 (min (100 - max 5 (min 100 (crop_height c))) (crop_y c)),
                 crop_width = max 5 (min 100 (crop_width c)),
                 crop_height = max 5 (min 100 (crop_height c))\<rparr>"
  by (simp add: crop_clamp_def num_rect_def Let_def)

lemma crop_clamp_id: "crop_inv c \<Longrightarrow> crop_clamp (num_rect c) = num_rect c"
  by (cases c) (simp add: crop_clamp_num_rect crop_inv_def)

lemma crop_candidate_finite:
  "\<exists>c. crop_candidate isDragging resizeHandle (num_rect snap) (Num dx) (Num dy) = num_rect c"
proof -
  have "rect_of (crop_candidate isDragging resizeHandle (num_rect snap) (Num dx) (Num dy)) \<noteq> None"
    by (simp add: crop_candidate_def rect_of_def num_rect_def Let_def)
  then obtain c where
    "rect_of (crop_candidate isDragging resizeHandle (num_rect snap) (Num dx) (Num dy)) = Some c"
    by blast
  then have "crop_candidate isDragging resizeHandle (num_rect snap) (Num dx) (Num dy) = num_rect c"
    by (simp add: rect_of_Some num_rect_def)
  then show ?thesis ..
qed

lemma crop_move_candidate_finite:
  assumes "rect_width rect \<noteq> 0" and "rect_height rect \<noteq> 0"
  shows "\<exists>c. CropBox_move_candidate rect e s = num_rect c"
  using assms crop_candidate_finite by (simp add: CropBox_move_candidate_def Let_def)

lemma crop_move_finite:
  assumes "rect_width rect \<noteq> 0" and "rect_height rect \<noteq> 0"
  shows "\<exists>r. CropBox_handleMouseMove (Some rect) e s = Finite (s\<lparr>cb_cropState := r\<rparr>)"
proof -
  from crop_move_candidate_finite [OF assms] obtain c where
    "CropBox_move_candidate rect e s = num_rect c" by blast
  then have "CropBox_handleMouseMove (Some rect) e s
      = Finite (s\<lparr>cb_cropState := the (rect_of (crop_clamp (num_rect c)))\<rparr>)"
    by (simp add: CropBox_handleMouseMove_def setCropState_def crop_clamp_num_rect rect_of_num_rect)
  then show ?thesis ..
qed

lemma crop_move_inv:
  assumes "CropBox_handleMouseMove (Some rect) e s = Finite s'"
  shows "crop_inv (cb_cropState s')"
proof -
  from assms obtain r where
    r: "rect_of (crop_clamp (CropBox_move_candidate rect e s)) = Some r" "s' = s\<lparr>cb_cropState := r\<rparr>"
    by (auto simp add: CropBox_handleMouseMove_def setCropState_def split: option.splits)
  from crop_clamp_inv [OF r(1)] r(2) show ?thesis by simp
qed

text \<open>
  C1 at a container whose bounding rectangle has width and height 0, in a move gesture whose
  pointer has gone straight down from the mouse-down: the horizontal delta is 0 / 0, the
  moved x is \<^verbatim>\<open>NaN\<close>, \<^verbatim>\<open>Math.min\<close> and \<^verbatim>\<open>Math.max\<close> pass \<^verbatim>\<open>NaN\<close> on, and \<^verbatim>\<open>handleMouseMove\<close>
  stores a rectangle whose x is \<^verbatim>\<open>NaN\<close>, outside [0, 100 - width]. (The vertical delta is
  infinite, and y is clamped to 20.)
\<close>

theorem crop_move_stores_nan:
  "CropBox_move_candidate \<lparr>rect_left = 0, rect_top = 0, rect_width = 0, rect_height = 0\<rparr>
       \<lparr>clientX = 100, clientY = 60, button = 0\<rparr>
       (CropBox_handleMouseDown \<lparr>clientX = 100, clientY = 50, button = 0\<rparr> None
          (CropBox_mount \<lparr>crop_x = 10, crop_y = 10, crop_width = 80, crop_height = 80\<rparr>))
     = \<lparr>crop_x = NaN, crop_y = PosInf, crop_width = Num 80, crop_height = Num 80\<rparr>
   \<and> crop_clamp \<lparr>crop_x = NaN, crop_y = PosInf, crop_width = Num 80, crop_height = Num 80\<rparr>
     = \<lparr>crop_x = NaN, crop_y = Num 20, crop_width = Num 80, crop_height = Num 80\<rparr>
   \<and> CropBox_handleMouseMove
       (Some \<lparr>rect_left = 0, rect_top = 0, rect_width = 0, rect_height = 0\<rparr>)
       \<lparr>clientX = 100, clientY = 60, button = 0\<rparr>
       (CropBox_handleMouseDown \<lparr>clientX = 100, clientY = 50, button = 0\<rparr> None
          (CropBox_mount \<lparr>crop_x = 10, crop_y = 10, crop_width = 80, crop_height = 80\<rparr>))
     = NonFinite"
  by (simp add: CropBox_handleMouseMove_def setCropState_def rect_of_def crop_clamp_def
      CropBox_move_candidate_def crop_candidate_def num_rect_def CropBox_handleMouseDown_def
      CropBox_mount_def CropBox_effect_def removeEventListeners_def addEventListeners_def Let_def)

text \<open>
  Whenever the rectangle \<^verbatim>\<open>handleMouseMove\<close> stores is finite it satisfies the crop invariants
  (\<open>crop_move_inv\<close>), and it is finite over every container of non-zero width and height
  (\<open>crop_move_finite\<close>). Over a container of size 0 a pointer away from the mouse-down gives
  infinite deltas, which the clamps absorb:
\<close>

lemma crop_move_zero_rect_finite:
  "CropBox_handleMouseMove
       (Some \<lparr>rect_left = 0, rect_top = 0, rect_width = 0, rect_height = 0\<rparr>)
       \<lparr>clientX = 130, clientY = 40, button = 0\<rparr>
       (CropBox_handleMouseDown \<lparr>clientX = 100, clientY = 50, button = 0\<rparr> None
          (CropBox_mount \<lparr>crop_x = 10, crop_y = 10, crop_width = 80, crop_height = 80\<rparr>))
     = Finite
       ((CropBox_handleMouseDown \<lparr>clientX = 100, clientY = 50, button = 0\<rparr> None
          (CropBox_mount \<lparr>crop_x = 10, crop_y = 10, crop_width = 80, crop_height = 80\<rparr>))
        \<lparr>cb_cropState := \<lparr>crop_x = 20, crop_y = 0, crop_width = 80, crop_height = 80\<rparr>\<rparr>)"
  by (simp add: CropBox_handleMouseMove_def setCropState_def rect_of_def crop_clamp_def
      CropBox_move_candidate_def crop_candidate_def num_rect_def CropBox_handleMouseDown_def
      CropBox_mount_def CropBox_effect_def removeEventListeners_def addEventListeners_def Let_def)

lemma handle_cases:
  assumes "h \<in> set handles"
  shows "truthy (Some h)"
    and "str_includes h ''left'' \<Longrightarrow> \<not> str_includes h ''right''"
    and "str_includes h ''top'' \<Longrightarrow> \<not> str_includes h ''bottom''"
  using assms by (auto simp add: handles_def str_includes_def sublist_Cons_right)

lemma resize_candidate_x:
  assumes "h \<in> set handles"
  shows "crop_x (crop_candidate False (Some h) (num_rect snap) (Num dx) (Num dy))
           = Num (if str_includes h ''left'' then crop_x snap + dx else crop_x snap)"
    and "crop_width (crop_candidate False (Some h) (num_rect snap) (Num dx) (Num dy))
           = Num (if str_includes h ''left'' then crop_width snap - dx
                  else if str_includes h ''right'' then crop_width snap + dx else crop_width snap)"
  using handle_cases [OF assms] by (auto simp add: crop_candidate_def num_rect_def Let_def)

lemma resize_candidate_y:
  assumes "h \<in> set handles"
  shows "crop_y (crop_candidate False (Some h) (num_rect snap) (Num dx) (Num dy))
           = Num (if str_includes h ''top'' then crop_y snap + dy else crop_y snap)"
    and "crop_height (crop_candidate False (Some h) (num_rect snap) (Num dx) (Num dy))
           = Num (if str_includes h ''top'' then crop_height snap - dy
                  else if str_includes h ''bottom'' then crop_height snap + dy else crop_height snap)"
  using handle_cases [OF assms] by (auto simp add: crop_candidate_def num_rect_def Let_def)

lemma crop_clamp_x_unclamped:
  "x_unclamped (num_rect c) \<Longrightarrow>
     crop_x (crop_clamp (num_rect c)) = Num (crop_x c)
     \<and> crop_width (crop_clamp (num_rect c)) = Num (crop_width c)"
  unfolding crop_clamp_num_rect by (simp add: x_unclamped_def num_rect_def)

lemma crop_clamp_y_unclamped:
  "y_unclamped (num_rect c) \<Longrightarrow>
     crop_y (crop_clamp (num_rect c)) = Num (crop_y c)
     \<and> crop_height (crop_clamp (num_rect c)) = Num (crop_height c)"
  unfolding crop_clamp_num_rect by (simp add: y_unclamped_def num_rect_def)

text \<open>
  C3. A resize grabbed on one of the eight handles leaves the opposite edge where the
  snapshot has it whenever no clamp binds on that axis: a handle containing "left" keeps
  x + width, one containing "right" keeps x, one containing "top" keeps y + height, one
  containing "bottom" keeps y.
\<close>

theorem crop_resize_anchor:
  assumes h: "h \<in> set handles"
    and rect: "rect_width rect \<noteq> 0" "rect_height rect \<noteq> 0"
  shows "\<exists>c. CropBox_handleMouseMove (Some rect) e (CropBox_handleMouseDown e0 (Some h) s0)
               = Finite ((CropBox_handleMouseDown e0 (Some h) s0)\<lparr>cb_cropState := c\<rparr>)
          \<and> (str_includes h ''left''
                \<and> x_unclamped (CropBox_move_candidate rect e (CropBox_handleMouseDown e0 (Some h) s0))
              \<longrightarrow> crop_x c + crop_width c = crop_x (cb_cropState s0) + crop_width (cb_cropState s0))
          \<and> (str_includes h ''right''
                \<and> x_unclamped (CropBox_move_candidate rect e (CropBox_handleMouseDown e0 (Some h) s0))
              \<longrightarrow> crop_x c = crop_x (cb_cropState s0))
          \<and> (str_includes h ''top''
                \<and> y_unclamped (CropBox_move_candidate rect e (CropBox_handleMouseDown e0 (Some h) s0))
              \<longrightarrow> crop_y c + crop_height c = crop_y (cb_cropState s0) + crop_height (cb_cropState s0))
          \<and> (str_includes h ''bottom''
                \<and> y_unclamped (CropBox_move_candidate rect e (CropBox_handleMouseDown e0 (Some h) s0))
              \<longrightarrow> crop_y c = crop_y (cb_cropState s0))"

proof -
  define s where "s = CropBox_handleMouseDown e0 (Some h) s0"
  define dx where "dx = ((clientX e - clientX e0) / rect_width rect) * 100"
  define dy where "dy = ((clientY e - clientY e0) / rect_height rect) * 100"
  have s_fields: "cb_isDragging s = False" "cb_resizeHandle s = Some h"
    "cb_dragStart s = \<lparr>start_mouseX = clientX e0, start_mouseY = clientY e0,
                        start_crop = cb_cropState s0\<rparr>"
    using handle_cases(1) [OF h] by (simp_all add: s_def CropBox_handleMouseDown_def)
  have cand_eq: "CropBox_move_candidate rect e s
      = crop_candidate False (Some h) (num_rect (cb_cropState s0)) (Num dx) (Num dy)"
    using rect by (simp add: CropBox_move_candidate_def Let_def s_fields dx_def dy_def)
  from crop_move_candidate_finite [OF rect, of e s] obtain cand where
    cand: "CropBox_move_candidate rect e s = num_rect cand" by blast
  have fx: "crop_x cand = (if str_includes h ''left'' then crop_x (cb_cropState s0) + dx
                           else crop_x (cb_cropState s0))"
    "crop_width cand = (if str_includes h ''left'' then crop_width (cb_cropState s0) - dx
                        else if str_includes h ''right'' then crop_width (cb_cropState s0) + dx
                        else crop_width (cb_cropState s0))"
    using resize_candidate_x [OF h, of "cb_cropState s0" dx dy] cand
    unfolding cand_eq by (simp_all add: num_rect_def)
  have fy: "crop_y cand = (if str_includes h ''top'' then crop_y (cb_cropState s0) + dy
                           else crop_y (cb_cropState s0))"
    "crop_height cand = (if str_includes h ''top'' then crop_height (cb_cropState s0) - dy
                         else if str_includes h ''bottom'' then crop_height (cb_cropState s0) + dy
                         else crop_height (cb_cropState s0))"
    using resize_candidate_y [OF h, of "cb_cropState s0" dx dy] cand
    unfolding cand_eq by (simp_all add: num_rect_def)
  obtain c where c: "crop_clamp (num_rect cand) = num_rect c"
    using crop_clamp_num_rect [of cand] by blast
  have run: "CropBox_handleMouseMove (Some rect) e s = Finite (s\<lparr>cb_cropState := c\<rparr>)"
    by (simp add: CropBox_handleMouseMove_def setCropState_def cand c rect_of_num_rect)
  have ux: "x_unclamped (num_rect cand) \<Longrightarrow> crop_x c = crop_x cand \<and> crop_width c = crop_width cand"
    using crop_clamp_x_unclamped [of cand] unfolding c by (simp add: num_rect_def)
  have uy: "y_unclamped (num_rect cand) \<Longrightarrow> crop_y c = crop_y cand \<and> crop_height c = crop_height cand"
    using crop_clamp_y_unclamped [of cand] unfolding c by (simp add: num_rect_def)
  have "CropBox_handleMouseMove (Some rect) e s = Finite (s\<lparr>cb_cropState := c\<rparr>)
          \<and> (str_includes h ''left'' \<and> x_unclamped (CropBox_move_candidate rect e s)
              \<longrightarrow> crop_x c + crop_width c = crop_x (cb_cropState s0) + crop_width (cb_cropState s0))
          \<and> (str_includes h ''right'' \<and> x_unclamped (CropBox_move_candidate rect e s)
              \<longrightarrow> crop_x c = crop_x (cb_cropState s0))
          \<and> (str_includes h ''top'' \<and> y_unclamped (CropBox_move_candidate rect e s)
              \<longrightarrow> crop_y c + crop_height c = crop_y (cb_cropState s0) + crop_height (cb_cropState s0))
          \<and> (str_includes h ''bottom'' \<and> y_unclamped (CropBox_move_candidate rect e s)
              \<longrightarrow> crop_y c = crop_y (cb_cropState s0))"
    using run ux uy fx fy handle_cases(2,3) [OF h] unfolding cand by auto
  then show ?thesis
    unfolding s_def by (rule exI [where x = c])
qed

theorem crop_resize_anchor_witness:
  "''top-left'' \<in> set handles \<and> ''bottom-right'' \<in> set handles
   \<and> rect_width \<lparr>rect_left = 0, rect_top = 0, rect_width = 200, rect_height = 100\<rparr> \<noteq> 0
   \<and> rect_height \<lparr>rect_left = 0, rect_top = 0, rect_width = 200, rect_height = 100\<rparr> \<noteq> 0
   \<and> str_includes ''top-left'' ''left'' \<and> str_includes ''top-left'' ''top''
   \<and> str_includes ''bottom-right'' ''right'' \<and> str_includes ''bottom-right'' ''bottom''
   \<and> x_unclamped (CropBox_move_candidate
         \<lparr>rect_left = 0, rect_top = 0, rect_width = 200, rect_height = 100\<rparr>
         \<lparr>clientX = 40, clientY = 20, button = 0\<rparr>
         (CropBox_handleMouseDown \<lparr>clientX = 20, clientY = 10, button = 0\<rparr> (Some ''top-left'')
            (CropBox_mount \<lparr>crop_x = 10, crop_y = 10, crop_width = 80, crop_height = 80\<rparr>)))
   \<and> y_unclamped (CropBox_move_candidate
         \<lparr>rect_left = 0, rect_top = 0, rect_width = 200, rect_height = 100\<rparr>
         \<lparr>clientX = 40, clientY = 20, button = 0\<rparr>
         (CropBox_handleMouseDown \<lparr>clientX = 20, clientY = 10, button = 0\<rparr> (Some ''top-left'')
            (CropBox_mount \<lparr>crop_x = 10, crop_y = 10, crop_width = 80, crop_height = 80\<rparr>)))
   \<and> (\<exists>c. CropBox_handleMouseMove
              (Some \<lparr>rect_left = 0, rect_top = 0, rect_width = 200, rect_height = 100\<rparr>)
              \<lparr>clientX = 40, clientY = 20, button = 0\<rparr>
              (CropBox_handleMouseDown \<lparr>clientX = 20, clientY = 10, button = 0\<rparr> (Some ''top-left'')
                 (CropBox_mount \<lparr>crop_x = 10, crop_y = 10, crop_width = 80, crop_height = 80\<rparr>))
            = Finite ((CropBox_handleMouseDown \<lparr>clientX = 20, clientY = 10, button = 0\<rparr> (Some ''top-left'')
                 (CropBox_mount \<lparr>crop_x = 10, crop_y = 10, crop_width = 80, crop_height = 80\<rparr>))
                 \<lparr>cb_cropState := c\<rparr>)
          \<and> crop_x c + crop_width c = 90 \<and> crop_y c + crop_height c = 90)
   \<and> x_unclamped (CropBox_move_candidate
         \<lparr>rect_left = 0, rect_top = 0, rect_width = 200, rect_height = 100\<rparr>
         \<lparr>clientX = 160, clientY = 80, button = 0\<rparr>
         (CropBox_handleMouseDown \<lparr>clientX = 180, clientY = 90, button = 0\<rparr> (Some ''bottom-right'')
            (CropBox_mount \<lparr>crop_x = 10, crop_y = 10, crop_width = 80, crop_height = 80\<rparr>)))
   \<and> y_unclamped (CropBox_move_candidate
         \<lparr>rect_left = 0, rect_top = 0, rect_width = 200, rect_height = 100\<rparr>
         \<lparr>clientX = 160, clientY = 80, button = 0\<rparr>
         (CropBox_handleMouseDown \<lparr>clientX = 180, clientY = 90, button = 0\<rparr> (Some ''bottom-right'')
            (CropBox_mount \<lparr>crop_x = 10, crop_y = 10, crop_width = 80, crop_height = 80\<rparr>)))
   \<and> (\<exists>c. CropBox_handleMouseMove
              (Some \<lparr>rect_left = 0, rect_top = 0, rect_width = 200, rect_height = 100\<rparr>)
              \<lparr>clientX = 160, clientY = 80, button = 0\<rparr>
              (CropBox_handleMouseDown \<lparr>clientX = 180, clientY = 90, button = 0\<rparr> (Some ''bottom-right'')
                 (CropBox_mount \<lparr>crop_x = 10, crop_y = 10, crop_width = 80, crop_height = 80\<rparr>))
            = Finite ((CropBox_handleMouseDown \<lparr>clientX = 180, clientY = 90, button = 0\<rparr> (Some ''bottom-right'')
                 (CropBox_mount \<lparr>crop_x = 10, crop_y = 10, crop_width = 80, crop_height = 80\<rparr>))
                 \<lparr>cb_cropState := c\<rparr>)
          \<and> crop_x c = 10 \<and> crop_y c = 10)"

proof -
  let ?rect = "\<lparr>rect_left = 0, rect_top = 0, rect_width = 200, rect_height = 100\<rparr>"
  let ?s0 = "CropBox_mount \<lparr>crop_x = 10, crop_y = 10, crop_width = 80, crop_height = 80\<rparr>"
  let ?d1 = "\<lparr>clientX = 20, clientY = 10, button = 0\<rparr>"
  let ?e1 = "\<lparr>clientX = 40, clientY = 20, button = 0\<rparr>"
  let ?d2 = "\<lparr>clientX = 180, clientY = 90, button = 0\<rparr>"
  let ?e2 = "\<lparr>clientX = 160, clientY = 80, button = 0\<rparr>"
  have hs: "''top-left'' \<in> set handles" "''bottom-right'' \<in> set handles"
    by (simp_all add: handles_def)
  have r: "rect_width ?rect \<noteq> 0" "rect_height ?rect \<noteq> 0" by simp_all
  have inc: "str_includes ''top-left'' ''left''" "str_includes ''top-left'' ''top''"
    "str_includes ''bottom-right'' ''right''" "str_includes ''bottom-right'' ''bottom''"
    "\<not> str_includes ''top-left'' ''right''" "\<not> str_includes ''top-left'' ''bottom''"
    "\<not> str_includes ''bottom-right'' ''left''" "\<not> str_includes ''bottom-right'' ''top''"
    by (simp_all add: str_includes_def sublist_Cons_right)
  have s0: "cb_cropState ?s0 = \<lparr>crop_x = 10, crop_y = 10, crop_width = 80, crop_height = 80\<rparr>"
    by (simp add: CropBox_mount_def CropBox_effect_def Let_def)
  have c1: "CropBox_move_candidate ?rect ?e1 (CropBox_handleMouseDown ?d1 (Some ''top-left'') ?s0)
              = \<lparr>crop_x = Num 20, crop_y = Num 20, crop_width = Num 70, crop_height = Num 70\<rparr>"
    by (simp add: CropBox_move_candidate_def crop_candidate_def CropBox_handleMouseDown_def
        num_rect_def inc s0)
  have c2: "CropBox_move_candidate ?rect ?e2 (CropBox_handleMouseDown ?d2 (Some ''bottom-right'') ?s0)
              = \<lparr>crop_x = Num 10, crop_y = Num 10, crop_width = Num 70, crop_height = Num 70\<rparr>"
    by (simp add: CropBox_move_candidate_def crop_candidate_def CropBox_handleMouseDown_def
        num_rect_def inc s0)
  have u1: "x_unclamped (CropBox_move_candidate ?rect ?e1 (CropBox_handleMouseDown ?d1 (Some ''top-left'') ?s0))"
    "y_unclamped (CropBox_move_candidate ?rect ?e1 (CropBox_handleMouseDown ?d1 (Some ''top-left'') ?s0))"
    unfolding c1 by (simp_all add: x_unclamped_def y_unclamped_def)
  have u2: "x_unclamped (CropBox_move_candidate ?rect ?e2 (CropBox_handleMouseDown ?d2 (Some ''bottom-right'') ?s0))"
    "y_unclamped (CropBox_move_candidate ?rect ?e2 (CropBox_handleMouseDown ?d2 (Some ''bottom-right'') ?s0))"
    unfolding c2 by (simp_all add: x_unclamped_def y_unclamped_def)
  have a1: "\<exists>c. CropBox_handleMouseMove (Some ?rect) ?e1 (CropBox_handleMouseDown ?d1 (Some ''top-left'') ?s0)
            = Finite ((CropBox_handleMouseDown ?d1 (Some ''top-left'') ?s0)\<lparr>cb_cropState := c\<rparr>)
          \<and> crop_x c + crop_width c = 90 \<and> crop_y c + crop_height c = 90"
    using crop_resize_anchor [OF hs(1) r, of ?e1 ?d1 ?s0] inc u1 unfolding s0 by auto
  have a2: "\<exists>c. CropBox_handleMouseMove (Some ?rect) ?e2 (CropBox_handleMouseDown ?d2 (Some ''bottom-right'') ?s0)
            = Finite ((CropBox_handleMouseDown ?d2 (Some ''bottom-right'') ?s0)\<lparr>cb_cropState := c\<rparr>)
          \<and> crop_x c = 10 \<and> crop_y c = 10"
    using crop_resize_anchor [OF hs(2) r, of ?e2 ?d2 ?s0] inc u2 unfolding s0 by auto
  show ?thesis
    using hs r inc(1-4) u1 u2 a1 a2 by blast
qed


section \<open>Properties of zoom and fit\<close>

text \<open>
  C2. For a transform whose scale lies in [0.5, 10], any pointer position and any wheel
  delta, the wheel handler (zoom enabled, container present) stores a transform whose scale
  is the clamp of \<open>scale - deltaY * 0.001\<close> to [0.5, 10], whose translation is
  \<open>pointer - image * newScale\<close>, and under which the image-space point that was under the
  pointer is the one under the pointer again.
\<close>

theorem wheel_zoom_anchor:
  assumes "0.5 \<le> t_scale (pz_transform s)" and "t_scale (pz_transform s) \<le> 10"
  shows "\<exists>t. handleWheel True (Some rc) e s = Finite (s\<lparr>pz_transform := t\<rparr>)
           \<and> 0.5 \<le> t_scale t \<and> t_scale t \<le> 10
           \<and> t_scale t = max 0.5 (min 10 (t_scale (pz_transform s) - deltaY e * 0.001))
           \<and> t_x t = (clientX e - rect_left rc)
                       - ((clientX e - rect_left rc - t_x (pz_transform s)) / t_scale (pz_transform s))
                         * t_scale t
           \<and> t_y t = (clientY e - rect_top rc)
                       - ((clientY e - rect_top rc - t_y (pz_transform s)) / t_scale (pz_transform s))
                         * t_scale t
           \<and> (clientX e - rect_left rc - t_x t) / t_scale t
               = (clientX e - rect_left rc - t_x (pz_transform s)) / t_scale (pz_transform s)
           \<and> (clientY e - rect_top rc - t_y t) / t_scale t
               = (clientY e - rect_top rc - t_y (pz_transform s)) / t_scale (pz_transform s)"
proof -
  define scale where "scale = t_scale (pz_transform s)"
  define newScale where "newScale = max 0.5 (min 10 (scale - deltaY e * 0.001))"
  define mouseX where "mouseX = clientX e - rect_left rc"
  define mouseY where "mouseY = clientY e - rect_top rc"
  define imageX where "imageX = (mouseX - t_x (pz_transform s)) / scale"
  define imageY where "imageY = (mouseY - t_y (pz_transform s)) / scale"
  define t where "t = \<lparr>t_scale = newScale, t_x = mouseX - imageX * newScale,
                         t_y = mouseY - imageY * newScale\<rparr>"
  have scale_nz: "scale \<noteq> 0"
    using assms(1) by (simp add: scale_def)
  have new_bounds: "0.5 \<le> newScale" "newScale \<le> 10"
    by (simp_all add: newScale_def)
  then have new_nz: "newScale \<noteq> 0" by simp
  have run: "handleWheel True (Some rc) e s = Finite (s\<lparr>pz_transform := t\<rparr>)"
    using scale_nz
    by (simp add: handleWheel_def Let_def t_def newScale_def mouseX_def mouseY_def imageX_def
        imageY_def scale_def)
  have back_x: "(mouseX - t_x t) / t_scale t = imageX"
    using new_nz by (simp add: t_def)
  have back_y: "(mouseY - t_y t) / t_scale t = imageY"
    using new_nz by (simp add: t_def)
  have "handleWheel True (Some rc) e s = Finite (s\<lparr>pz_transform := t\<rparr>)
           \<and> 0.5 \<le> t_scale t \<and> t_scale t \<le> 10
           \<and> t_scale t = max 0.5 (min 10 (t_scale (pz_transform s) - deltaY e * 0.001))
           \<and> t_x t = (clientX e - rect_left rc)
                       - ((clientX e - rect_left rc - t_x (pz_transform s)) / t_scale (pz_transform s))
                         * t_scale t
           \<and> t_y t = (clientY e - rect_top rc)
                       - ((clientY e - rect_top rc - t_y (pz_transform s)) / t_scale (pz_transform s))
                         * t_scale t
           \<and> (clientX e - rect_left rc - t_x t) / t_scale t
               = (clientX e - rect_left rc - t_x (pz_transform s)) / t_scale (pz_transform s)
           \<and> (clientY e - rect_top rc - t_y t) / t_scale t
               = (clientY e - rect_top rc - t_y (pz_transform s)) / t_scale (pz_transform s)"
    using run new_bounds back_x back_y
    by (simp add: t_def newScale_def mouseX_def mouseY_def imageX_def imageY_def scale_def)
  then show ?thesis by (rule exI [where x = t])
qed

theorem wheel_zoom_anchor_witness:
  "0.5 \<le> t_scale (pz_transform
       \<lparr>pz_transform = \<lparr>t_scale = 1, t_x = 0, t_y = 0\<rparr>,
        pz_initialImageMetrics = \<lparr>m_width = 800, m_height = 400, m_initialX = 0, m_initialY = 0\<rparr>,
        pz_isPanning = False,
        pz_panStart = \<lparr>pan_startX = 0, pan_startY = 0, pan_initialX = 0, pan_initialY = 0\<rparr>\<rparr>)
   \<and> t_scale (pz_transform
       \<lparr>pz_transform = \<lparr>t_scale = 1, t_x = 0, t_y = 0\<rparr>,
        pz_initialImageMetrics = \<lparr>m_width = 800, m_height = 400, m_initialX = 0, m_initialY = 0\<rparr>,
        pz_isPanning = False,
        pz_panStart = \<lparr>pan_startX = 0, pan_startY = 0, pan_initialX = 0, pan_initialY = 0\<rparr>\<rparr>) \<le> 10
   \<and> handleWheel True (Some \<lparr>rect_left = 10, rect_top = 20, rect_width = 800, rect_height = 600\<rparr>)
         \<lparr>clientX = 110, clientY = 220, button = 0, deltaY = - 1000\<rparr>
         \<lparr>pz_transform = \<lparr>t_scale = 1, t_x = 0, t_y = 0\<rparr>,
          pz_initialImageMetrics = \<lparr>m_width = 800, m_height = 400, m_initialX = 0, m_initialY = 0\<rparr>,
          pz_isPanning = False,
          pz_panStart = \<lparr>pan_startX = 0, pan_startY = 0, pan_initialX = 0, pan_initialY = 0\<rparr>\<rparr>
       = Finite
         \<lparr>pz_transform = \<lparr>t_scale = 2, t_x = - 100, t_y = - 200\<rparr>,
          pz_initialImageMetrics = \<lparr>m_width = 800, m_height = 400, m_initialX = 0, m_initialY = 0\<rparr>,
          pz_isPanning = False,
          pz_panStart = \<lparr>pan_startX = 0, pan_startY = 0, pan_initialX = 0, pan_initialY = 0\<rparr>\<rparr>"
proof -
  let ?s = "\<lparr>pz_transform = \<lparr>t_scale = 1, t_x = 0, t_y = 0\<rparr>,
          pz_initialImageMetrics = \<lparr>m_width = 800, m_height = 400, m_initialX = 0, m_initialY = 0\<rparr>,
          pz_isPanning = False,
          pz_panStart = \<lparr>pan_startX = 0, pan_startY = 0, pan_initialX = 0, pan_initialY = 0\<rparr>\<rparr>"
  let ?rc = "\<lparr>rect_left = 10, rect_top = 20, rect_width = 800, rect_height = 600\<rparr>"
  let ?e = "\<lparr>clientX = 110, clientY = 220, button = 0, deltaY = - 1000\<rparr>"
  have lo: "0.5 \<le> t_scale (pz_transform ?s)" and hi: "t_scale (pz_transform ?s) \<le> 10"
    by simp_all
  from wheel_zoom_anchor [OF lo hi, of ?rc ?e] obtain t where
    t: "handleWheel True (Some ?rc) ?e ?s = Finite (?s\<lparr>pz_transform := t\<rparr>)"
       "t_scale t = max 0.5 (min 10 (t_scale (pz_transform ?s) - deltaY ?e * 0.001))"
       "t_x t = (clientX ?e - rect_left ?rc)
                 - ((clientX ?e - rect_left ?rc - t_x (pz_transform ?s)) / t_scale (pz_transform ?s))
                   * t_scale t"
       "t_y t = (clientY ?e - rect_top ?rc)
                 - ((clientY ?e - rect_top ?rc - t_y (pz_transform ?s)) / t_scale (pz_transform ?s))
                   * t_scale t"
    by blast
  have "t_scale t = 2" using t(2) by simp
  moreover from this have "t_x t = - 100" "t_y t = - 200" using t(3,4) by simp_all
  ultimately have "t = \<lparr>t_scale = 2, t_x = - 100, t_y = - 200\<rparr>" by (cases t) simp
  with t(1) lo hi show ?thesis by simp
qed

text \<open>
  C5. A 1600 x 800 image in an 800 x 600 container is fitted to width 800, height 400 at
  (0, 0), and the transform is reset to scale 1 at (0, 0). For every loaded image and
  container the fitted image is centred horizontally, \<open>left = (containerW - width) / 2\<close>,
  pinned to the top, \<open>top = 0\<close>, and the transform is reset to scale 1 at (left, top).
\<close>

theorem fit_top_centred:
  "updateFit (Some \<lparr>img_complete = True, naturalWidth = 1600, naturalHeight = 800\<rparr>)
       (Some \<lparr>clientWidth = 800, clientHeight = 600\<rparr>) s
     = Finite (s\<lparr>pz_initialImageMetrics :=
                   \<lparr>m_width = 800, m_height = 400, m_initialX = 0, m_initialY = 0\<rparr>,
                 pz_transform := \<lparr>t_scale = 1, t_x = 0, t_y = 0\<rparr>\<rparr>)
   \<and> (img_complete i \<and> naturalWidth i \<noteq> 0 \<and> naturalHeight i \<noteq> 0 \<and> clientHeight c \<noteq> 0
        \<longrightarrow> (\<exists>m. updateFit (Some i) (Some c) s
                    = Finite (s\<lparr>pz_initialImageMetrics := m,
                                pz_transform := \<lparr>t_scale = 1, t_x = m_initialX m, t_y = m_initialY m\<rparr>\<rparr>)
                  \<and> m_initialX m = (real (clientWidth c) - m_width m) / 2
                  \<and> m_initialY m = 0))"
proof (intro conjI impI)
  show "updateFit (Some \<lparr>img_complete = True, naturalWidth = 1600, naturalHeight = 800\<rparr>)
       (Some \<lparr>clientWidth = 800, clientHeight = 600\<rparr>) s
     = Finite (s\<lparr>pz_initialImageMetrics :=
                   \<lparr>m_width = 800, m_height = 400, m_initialX = 0, m_initialY = 0\<rparr>,
                 pz_transform := \<lparr>t_scale = 1, t_x = 0, t_y = 0\<rparr>\<rparr>)"
    by (simp add: updateFit_def Let_def)
next
  assume a: "img_complete i \<and> naturalWidth i \<noteq> 0 \<and> naturalHeight i \<noteq> 0 \<and> clientHeight c \<noteq> 0"
  define cRatio where "cRatio = real (clientWidth c) / real (clientHeight c)"
  define iRatio where "iRatio = real (naturalWidth i) / real (naturalHeight i)"
  have iRatio_nz: "iRatio \<noteq> 0"
    using a by (simp add: iRatio_def)
  define width where "width = (if cRatio > iRatio then real (clientHeight c) * iRatio
                               else real (clientWidth c))"
  define height where "height = (if cRatio > iRatio then real (clientHeight c)
                                 else real (clientWidth c) / iRatio)"
  define m where "m = \<lparr>m_width = width, m_height = height,
                        m_initialX = (real (clientWidth c) - width) / 2, m_initialY = 0\<rparr>"
  have "updateFit (Some i) (Some c) s
          = Finite (s\<lparr>pz_initialImageMetrics := m,
                      pz_transform := \<lparr>t_scale = 1, t_x = m_initialX m, t_y = m_initialY m\<rparr>\<rparr>)"
    using a iRatio_nz
    by (simp add: updateFit_def Let_def m_def width_def height_def cRatio_def iRatio_def)
  moreover have "m_initialX m = (real (clientWidth c) - m_width m) / 2" "m_initialY m = 0"
    by (simp_all add: m_def)
  ultimately show "\<exists>m. updateFit (Some i) (Some c) s
                    = Finite (s\<lparr>pz_initialImageMetrics := m,
                                pz_transform := \<lparr>t_scale = 1, t_x = m_initialX m, t_y = m_initialY m\<rparr>\<rparr>)
                  \<and> m_initialX m = (real (clientWidth c) - m_width m) / 2
                  \<and> m_initialY m = 0"
    by blast
qed

theorem fit_top_centred_witness:
  "img_complete \<lparr>img_complete = True, naturalWidth = 400, naturalHeight = 800\<rparr>
   \<and> naturalWidth \<lparr>img_complete = True, naturalWidth = 400, naturalHeight = 800\<rparr> \<noteq> 0
   \<and> naturalHeight \<lparr>img_complete = True, naturalWidth = 400, naturalHeight = 800\<rparr> \<noteq> 0
   \<and> clientHeight \<lparr>clientWidth = 800, clientHeight = 600\<rparr> \<noteq> 0
   \<and> (\<exists>m. updateFit (Some \<lparr>img_complete = True, naturalWidth = 400, naturalHeight = 800\<rparr>)
              (Some \<lparr>clientWidth = 800, clientHeight = 600\<rparr>)
              \<lparr>pz_transform = \<lparr>t_scale = 2, t_x = 5, t_y = 7\<rparr>,
               pz_initialImageMetrics = \<lparr>m_width = 0, m_height = 0, m_initialX = 0, m_initialY = 0\<rparr>,
               pz_isPanning = False,
               pz_panStart = \<lparr>pan_startX = 0, pan_startY = 0, pan_initialX = 0, pan_initialY = 0\<rparr>\<rparr>
            = Finite
              \<lparr>pz_transform = \<lparr>t_scale = 1, t_x = 250, t_y = 0\<rparr>,
               pz_initialImageMetrics = m,
               pz_isPanning = False,
               pz_panStart = \<lparr>pan_startX = 0, pan_startY = 0, pan_initialX = 0, pan_initialY = 0\<rparr>\<rparr>
          \<and> m_width m = 300 \<and> m_height m = 600 \<and> m_initialX m = 250 \<and> m_initialY m = 0)"
proof -
  let ?i = "\<lparr>img_complete = True, naturalWidth = 400, naturalHeight = 800\<rparr>"
  let ?c = "\<lparr>clientWidth = 800, clientHeight = 600\<rparr>"
  let ?s = "\<lparr>pz_transform = \<lparr>t_scale = 2, t_x = 5, t_y = 7\<rparr>,
               pz_initialImageMetrics = \<lparr>m_width = 0, m_height = 0, m_initialX = 0, m_initialY = 0\<rparr>,
               pz_isPanning = False,
               pz_panStart = \<lparr>pan_startX = 0, pan_startY = 0, pan_initialX = 0, pan_initialY = 0\<rparr>\<rparr>"
  have hyp: "img_complete ?i \<and> naturalWidth ?i \<noteq> 0 \<and> naturalHeight ?i \<noteq> 0 \<and> clientHeight ?c \<noteq> 0"
    by simp
  from fit_top_centred [of ?s ?i ?c] hyp obtain m where
    m: "updateFit (Some ?i) (Some ?c) ?s
          = Finite (?s\<lparr>pz_initialImageMetrics := m,
                      pz_transform := \<lparr>t_scale = 1, t_x = m_initialX m, t_y = m_initialY m\<rparr>\<rparr>)"
       "m_initialX m = (real (clientWidth ?c) - m_width m) / 2" "m_initialY m = 0"
    by blast
  have ev: "updateFit (Some ?i) (Some ?c) ?s
          = Finite (?s\<lparr>pz_initialImageMetrics :=
                        \<lparr>m_width = 300, m_height = 600, m_initialX = 250, m_initialY = 0\<rparr>,
                      pz_transform := \<lparr>t_scale = 1, t_x = 250, t_y = 0\<rparr>\<rparr>)"
    by (simp add: updateFit_def Let_def)
  have sizes: "m_width m = 300" "m_height m = 600"
    using m(1) unfolding ev by auto
  then have "m_initialX m = 250" using m(2) by simp
  with m(1,3) sizes hyp show ?thesis by simp
qed

text \<open>
  \<^verbatim>\<open>updateFit\<close> never stores a non-finite number: with a container or an image of height 0 a
  ratio is infinite or \<^verbatim>\<open>NaN\<close>, and the metrics are finite all the same.
\<close>

lemma updateFit_finite: "updateFit img container s \<noteq> NonFinite"
proof (cases "\<exists>i c. img = Some i \<and> container = Some c \<and> img_complete i \<and> naturalWidth i \<noteq> 0")
  case False
  then show ?thesis
    by (auto simp add: updateFit_def split: option.splits)
next
  case True
  then obtain i c where ic: "img = Some i" "container = Some c" "img_complete i" "naturalWidth i \<noteq> 0"
    by blast
  show ?thesis
    using ic by (cases "clientHeight c = 0"; cases "naturalHeight i = 0"; cases "clientWidth c = 0")
      (simp_all add: updateFit_def Let_def)
qed

lemma updateFit_zero_height:
  "updateFit (Some \<lparr>img_complete = True, naturalWidth = 1600, naturalHeight = 800\<rparr>)
       (Some \<lparr>clientWidth = 800, clientHeight = 0\<rparr>) s
     = Finite (s\<lparr>pz_initialImageMetrics :=
                   \<lparr>m_width = 0, m_height = 0, m_initialX = 400, m_initialY = 0\<rparr>,
                 pz_transform := \<lparr>t_scale = 1, t_x = 400, t_y = 0\<rparr>\<rparr>)"
  by (simp add: updateFit_def Let_def)


section \<open>Properties of the rasterised export\<close>

lemma handleDownloadImage_busy: "handleDownloadImage True currentImage options s = s"
  by (simp add: handleDownloadImage_def)

lemma handleDownloadClick_busy: "handleDownloadClick True b currentImage options s = s"
  by (simp add: handleDownloadClick_def)

lemma settle_download_fields:
  "ex_pending s = options # rest \<Longrightarrow>
     ex_isProcessingDownload (settle_download outcome s) = False
     \<and> ex_pending (settle_download outcome s) = rest"
  by (cases outcome) (simp_all add: settle_download_def)

lemma export_inv_step: "export_inv s \<Longrightarrow> export_inv (Exporter_step currentImage e s)"
proof (cases e)
  case (DownloadClick options)
  assume "export_inv s"
  then show ?thesis
    by (auto simp add: DownloadClick export_inv_def handleDownloadClick_def handleDownloadImage_def)
next
  case (LoadSettled outcome)
  assume inv: "export_inv s"
  show ?thesis
  proof (cases "ex_pending s")
    case Nil
    then show ?thesis using inv by (simp add: LoadSettled settle_download_def)
  next
    case (Cons options rest)
    with inv have "rest = []" by (simp add: export_inv_def)
    with settle_download_fields [OF Cons, of outcome] show ?thesis
      by (simp add: LoadSettled export_inv_def)
  qed
qed

lemma export_inv_run: "export_inv s \<Longrightarrow> export_inv (Exporter_run currentImage events s)"
  by (induction events arbitrary: s) (simp_all add: export_inv_step)

lemma export_inv_init: "export_inv Exporter_init"
  by (simp add: export_inv_def Exporter_init_def)

text \<open>
  C4. An export requested while one is in progress starts nothing: the panel's callback and
  the modal's click handler return the state as it is (flag, pending export, downloads and
  alerts unchanged). Over every sequence of clicks and image-load results from the initial
  state, at most one export is pending, and the flag is set exactly while one is.
\<close>

theorem export_single_flight:
  "handleDownloadImage True currentImage options s = s
   \<and> handleDownloadClick True b currentImage options s = s
   \<and> (ex_isProcessingDownload s \<longrightarrow> Exporter_step currentImage (DownloadClick options) s = s)
   \<and> length (ex_pending (Exporter_run currentImage events Exporter_init)) \<le> 1
   \<and> (ex_isProcessingDownload (Exporter_run currentImage events Exporter_init)
        \<longleftrightarrow> ex_pending (Exporter_run currentImage events Exporter_init) \<noteq> [])"
proof -
  have "export_inv (Exporter_run currentImage events Exporter_init)"
    by (rule export_inv_run) (rule export_inv_init)
  then show ?thesis
    by (simp add: export_inv_def handleDownloadImage_busy handleDownloadClick_busy)
qed

theorem export_single_flight_witness:
  "ex_isProcessingDownload
     \<lparr>ex_isProcessingDownload = True,
      ex_pending = [\<lparr>opt_scale = 1, opt_format = png, opt_quality = 90\<rparr>],
      ex_downloads = [], ex_alerts = []\<rparr>
   \<and> Exporter_step (Some ''iVBORw0KGgo='')
         (DownloadClick \<lparr>opt_scale = 2, opt_format = jpeg, opt_quality = 80\<rparr>)
         \<lparr>ex_isProcessingDownload = True,
          ex_pending = [\<lparr>opt_scale = 1, opt_format = png, opt_quality = 90\<rparr>],
          ex_downloads = [], ex_alerts = []\<rparr>
       = \<lparr>ex_isProcessingDownload = True,
          ex_pending = [\<lparr>opt_scale = 1, opt_format = png, opt_quality = 90\<rparr>],
          ex_downloads = [], ex_alerts = []\<rparr>
   \<and> ex_pending (Exporter_run (Some ''iVBORw0KGgo='')
         [DownloadClick \<lparr>opt_scale = 1, opt_format = png, opt_quality = 90\<rparr>,
          DownloadClick \<lparr>opt_scale = 2, opt_format = jpeg, opt_quality = 80\<rparr>]
         Exporter_init)
       = [\<lparr>opt_scale = 1, opt_format = png, opt_quality = 90\<rparr>]"
proof -
  let ?busy = "\<lparr>ex_isProcessingDownload = True,
      ex_pending = [\<lparr>opt_scale = 1, opt_format = png, opt_quality = 90\<rparr>],
      ex_downloads = [], ex_alerts = []\<rparr>"
  let ?o2 = "\<lparr>opt_scale = 2, opt_format = jpeg, opt_quality = 80\<rparr>"
  have busy: "ex_isProcessingDownload ?busy" by simp
  have run: "Exporter_run (Some ''iVBORw0KGgo='')
         [DownloadClick \<lparr>opt_scale = 1, opt_format = png, opt_quality = 90\<rparr>] Exporter_init = ?busy"
    by (simp add: Exporter_init_def handleDownloadClick_def handleDownloadImage_def)
  have "Exporter_step (Some ''iVBORw0KGgo='') (DownloadClick ?o2) ?busy = ?busy"
    using export_single_flight [of "Some ''iVBORw0KGgo=''" ?o2 ?busy True "[]"] busy by blast
  with busy run show ?thesis by simp
qed

text \<open>
  C10. An export that passes the guard (no export in progress, an image present) sets the
  flag before the image loads; whichever way the load ends (load error, no canvas context,
  an exception while drawing, success) the flag is false again, and the next click starts
  a new export.
\<close>

theorem export_flag_reset:
  assumes "\<not> ex_isProcessingDownload s" and "ex_pending s = []" and "truthy currentImage"
  shows "ex_isProcessingDownload (handleDownloadImage (ex_isProcessingDownload s) currentImage options s)
    \<and> ex_pending (handleDownloadImage (ex_isProcessingDownload s) currentImage options s) = [options]
    \<and> \<not> ex_isProcessingDownload
          (settle_download outcome
             (handleDownloadImage (ex_isProcessingDownload s) currentImage options s))
    \<and> ex_pending
          (settle_download outcome
             (handleDownloadImage (ex_isProcessingDownload s) currentImage options s)) = []
    \<and> ex_isProcessingDownload
          (Exporter_step currentImage (DownloadClick options')
             (settle_download outcome
                (handleDownloadImage (ex_isProcessingDownload s) currentImage options s)))
    \<and> ex_pending
          (Exporter_step currentImage (DownloadClick options')
             (settle_download outcome
                (handleDownloadImage (ex_isProcessingDownload s) currentImage options s))) = [options']"
proof -
  define s1 where "s1 = handleDownloadImage (ex_isProcessingDownload s) currentImage options s"
  define s2 where "s2 = settle_download outcome s1"
  have s1: "ex_isProcessingDownload s1" "ex_pending s1 = [options]"
    using assms by (simp_all add: s1_def handleDownloadImage_def)
  have s2: "\<not> ex_isProcessingDownload s2" "ex_pending s2 = []"
    using settle_download_fields [OF s1(2), of outcome] by (simp_all add: s2_def)
  have s3: "ex_isProcessingDownload (Exporter_step currentImage (DownloadClick options') s2)"
    "ex_pending (Exporter_step currentImage (DownloadClick options') s2) = [options']"
    using s2 assms(3) by (simp_all add: handleDownloadClick_def handleDownloadImage_def)
  show ?thesis
    using s1 s2 s3 unfolding s2_def s1_def by blast
qed

theorem export_flag_reset_witness:
  "\<not> ex_isProcessingDownload Exporter_init \<and> ex_pending Exporter_init = []
   \<and> truthy (Some ''iVBORw0KGgo='')
   \<and> ex_isProcessingDownload
       (handleDownloadImage (ex_isProcessingDownload Exporter_init) (Some ''iVBORw0KGgo='')
          \<lparr>opt_scale = 2, opt_format = jpeg, opt_quality = 80\<rparr> Exporter_init)
   \<and> \<not> ex_isProcessingDownload
       (settle_download (NoContext \<lparr>img_complete = True, naturalWidth = 500, naturalHeight = 300\<rparr>)
          (handleDownloadImage (ex_isProcessingDownload Exporter_init) (Some ''iVBORw0KGgo='')
             \<lparr>opt_scale = 2, opt_format = jpeg, opt_quality = 80\<rparr> Exporter_init))
   \<and> ex_isProcessingDownload
       (Exporter_step (Some ''iVBORw0KGgo='')
          (DownloadClick \<lparr>opt_scale = 1, opt_format = png, opt_quality = 90\<rparr>)
          (settle_download (NoContext \<lparr>img_complete = True, naturalWidth = 500, naturalHeight = 300\<rparr>)
             (handleDownloadImage (ex_isProcessingDownload Exporter_init) (Some ''iVBORw0KGgo='')
                \<lparr>opt_scale = 2, opt_format = jpeg, opt_quality = 80\<rparr> Exporter_init)))"
proof -
  have h: "\<not> ex_isProcessingDownload Exporter_init" "ex_pending Exporter_init = []"
    "truthy (Some ''iVBORw0KGgo='')"
    by (simp_all add: Exporter_init_def)
  show ?thesis
    using h export_flag_reset [OF h,
        of "\<lparr>opt_scale = 2, opt_format = jpeg, opt_quality = 80\<rparr>"
           "NoContext \<lparr>img_complete = True, naturalWidth = 500, naturalHeight = 300\<rparr>"
           "\<lparr>opt_scale = 1, opt_format = png, opt_quality = 90\<rparr>"]
    by blast
qed

lemma source_over_opaque_white:
  "source_over (r, g, b, a) (1, 1, 1, 1) = (r * a + (1 - a), g * a + (1 - a), b * a + (1 - a), 1)"
  by (simp add: source_over_def)

lemma source_over_transparent:
  "source_over (r, g, b, a) (0, 0, 0, 0) = (if a = 0 then (0, 0, 0, 0) else (r, g, b, a))"
  by (simp add: source_over_def)

lemma alpha_source_over_white: "alpha (source_over c (1, 1, 1, 1)) = 1"
  by (cases c) (simp add: source_over_opaque_white alpha_def)

lemma alpha_source_over_transparent: "alpha (source_over c (0, 0, 0, 0)) = alpha c"
  by (cases c) (simp add: source_over_transparent alpha_def)

lemma transparent_over_white: "alpha c = 0 \<Longrightarrow> source_over c (1, 1, 1, 1) = (1, 1, 1, 1)"
  by (cases c) (simp add: source_over_opaque_white alpha_def)

lemma jpeg_pixel:
  assumes "opt_format options = jpeg"
    and "i < naturalWidth img * opt_scale options" and "j < naturalHeight img * opt_scale options"
  shows "canvas_pixel src (export_canvas img options) i j = source_over (src i j) (1, 1, 1, 1)"
  using assms
  by (simp add: canvas_pixel_def export_canvas_def Let_def in_rect_def fill_colour_def
      source_over_transparent)

lemma png_pixel:
  assumes "opt_format options = png"
    and "i < naturalWidth img * opt_scale options" and "j < naturalHeight img * opt_scale options"
  shows "canvas_pixel src (export_canvas img options) i j = source_over (src i j) (0, 0, 0, 0)"
  using assms
  by (simp add: canvas_pixel_def export_canvas_def Let_def in_rect_def)

text \<open>
  C8. The export canvas measures naturalWidth * scale by naturalHeight * scale in both
  formats. For jpeg the calls are: fill style white, fill the whole canvas, then draw the
  image; every pixel of the canvas is opaque, and white wherever the drawn image is fully
  transparent. For png there is no fill before the image is drawn, and every pixel keeps the
  alpha of the drawn image.
\<close>

theorem export_jpeg_white_fill:
  "canvas_width (export_canvas img options) = naturalWidth img * opt_scale options
   \<and> canvas_height (export_canvas img options) = naturalHeight img * opt_scale options
   \<and> (opt_format options = jpeg \<longrightarrow>
        canvas_calls (export_canvas img options)
          = [SetFillStyle ''#FFFFFF'',
             FillRect 0 0 (canvas_width (export_canvas img options))
               (canvas_height (export_canvas img options)),
             SetImageSmoothingQuality ''high'',
             DrawImage 0 0 (canvas_width (export_canvas img options))
               (canvas_height (export_canvas img options))])
   \<and> (opt_format options = png \<longrightarrow>
        canvas_calls (export_canvas img options)
          = [SetImageSmoothingQuality ''high'',
             DrawImage 0 0 (canvas_width (export_canvas img options))
               (canvas_height (export_canvas img options))])
   \<and> (i < canvas_width (export_canvas img options) \<and> j < canvas_height (export_canvas img options)
        \<longrightarrow> (opt_format options = jpeg \<longrightarrow>
               alpha (canvas_pixel src (export_canvas img options) i j) = 1
               \<and> (alpha (src i j) = 0 \<longrightarrow>
                    canvas_pixel src (export_canvas img options) i j = (1, 1, 1, 1)))
           \<and> (opt_format options = png \<longrightarrow>
               alpha (canvas_pixel src (export_canvas img options) i j) = alpha (src i j)))"
proof -
  have dims: "canvas_width (export_canvas img options) = naturalWidth img * opt_scale options"
    "canvas_height (export_canvas img options) = naturalHeight img * opt_scale options"
    by (simp_all add: export_canvas_def Let_def)
  have calls_jpeg: "opt_format options = jpeg \<Longrightarrow>
        canvas_calls (export_canvas img options)
          = [SetFillStyle ''#FFFFFF'',
             FillRect 0 0 (naturalWidth img * opt_scale options) (naturalHeight img * opt_scale options),
             SetImageSmoothingQuality ''high'',
             DrawImage 0 0 (naturalWidth img * opt_scale options) (naturalHeight img * opt_scale options)]"
    by (simp add: export_canvas_def Let_def)
  have calls_png: "opt_format options = png \<Longrightarrow>
        canvas_calls (export_canvas img options)
          = [SetImageSmoothingQuality ''high'',
             DrawImage 0 0 (naturalWidth img * opt_scale options) (naturalHeight img * opt_scale options)]"
    by (simp add: export_canvas_def Let_def)
  show ?thesis
    unfolding dims
    using calls_jpeg calls_png jpeg_pixel [of options i img j src] png_pixel [of options i img j src]
    by (simp add: alpha_source_over_white alpha_source_over_transparent transparent_over_white)
qed

theorem export_jpeg_white_fill_witness:
  "opt_format \<lparr>opt_scale = 2, opt_format = jpeg, opt_quality = 80\<rparr> = jpeg
   \<and> opt_format \<lparr>opt_scale = 2, opt_format = png, opt_quality = 80\<rparr> = png
   \<and> alpha ((\<lambda>i j. (0, 0, 0, 0)) 10 20) = 0
   \<and> canvas_width (export_canvas \<lparr>img_complete = True, naturalWidth = 500, naturalHeight = 300\<rparr>
        \<lparr>opt_scale = 2, opt_format = jpeg, opt_quality = 80\<rparr>) = 1000
   \<and> canvas_height (export_canvas \<lparr>img_complete = True, naturalWidth = 500, naturalHeight = 300\<rparr>
        \<lparr>opt_scale = 2, opt_format = jpeg, opt_quality = 80\<rparr>) = 600
   \<and> canvas_width (export_canvas \<lparr>img_complete = True, naturalWidth = 500, naturalHeight = 300\<rparr>
        \<lparr>opt_scale = 2, opt_format = png, opt_quality = 80\<rparr>) = 1000
   \<and> canvas_height (export_canvas \<lparr>img_complete = True, naturalWidth = 500, naturalHeight = 300\<rparr>
        \<lparr>opt_scale = 2, opt_format = png, opt_quality = 80\<rparr>) = 600
   \<and> canvas_pixel (\<lambda>i j. (0, 0, 0, 0))
        (export_canvas \<lparr>img_complete = True, naturalWidth = 500, naturalHeight = 300\<rparr>
           \<lparr>opt_scale = 2, opt_format = jpeg, opt_quality = 80\<rparr>) 10 20 = (1, 1, 1, 1)
   \<and> alpha (canvas_pixel (\<lambda>i j. (0, 0, 0, 0))
        (export_canvas \<lparr>img_complete = True, naturalWidth = 500, naturalHeight = 300\<rparr>
           \<lparr>opt_scale = 2, opt_format = png, opt_quality = 80\<rparr>) 10 20) = 0"
proof -
  let ?img = "\<lparr>img_complete = True, naturalWidth = 500, naturalHeight = 300\<rparr>"
  let ?J = "\<lparr>opt_scale = 2, opt_format = jpeg, opt_quality = 80\<rparr>"
  let ?P = "\<lparr>opt_scale = 2, opt_format = png, opt_quality = 80\<rparr>"
  let ?src = "\<lambda>i j :: nat. (0, 0, 0, 0) :: rgba"
  have a0: "alpha (?src 10 20) = 0" by (simp add: alpha_def)
  note J = export_jpeg_white_fill [of ?img ?J 10 20 ?src]
  note P = export_jpeg_white_fill [of ?img ?P 10 20 ?src]
  have wJ: "canvas_width (export_canvas ?img ?J) = 1000" "canvas_height (export_canvas ?img ?J) = 600"
    using J by simp_all
  have wP: "canvas_width (export_canvas ?img ?P) = 1000" "canvas_height (export_canvas ?img ?P) = 600"
    using P by simp_all
  have pJ: "canvas_pixel ?src (export_canvas ?img ?J) 10 20 = (1, 1, 1, 1)"
    using J a0 unfolding wJ by simp
  have pP: "alpha (canvas_pixel ?src (export_canvas ?img ?P) 10 20) = 0"
    using P a0 unfolding wP by simp
  show ?thesis
    using a0 wJ wP pJ pP by simp
qed


section \<open>Properties of the listener effects\<close>

lemma run_events_invariant:
  assumes step: "\<And>e s s'. P s \<Longrightarrow> step e s = Finite s' \<Longrightarrow> P s'"
    and "P s" and "run_events step es s = Finite s'"
  shows "P s'"
  using assms(2,3)
proof (induction es arbitrary: s)
  case Nil
  then show ?case by simp
next
  case (Cons e es)
  then show ?case
    by (auto split: js.splits dest: step)
qed

lemma text_effect_ok: "text_listeners_ok s \<Longrightarrow> text_listeners_ok (DraggableText_effect s)"
  by (simp add: text_listeners_ok_def DraggableText_effect_def removeEventListeners_def
      addEventListeners_def Let_def)

lemma text_effect_ok_after:
  "text_listeners_ok s \<Longrightarrow> dt_listeners s' = dt_listeners s \<Longrightarrow>
     text_listeners_ok (DraggableText_effect s')"
  by (auto simp add: text_listeners_ok_def DraggableText_effect_def removeEventListeners_def
      addEventListeners_def Let_def split: if_splits)

lemma text_handleDragMove_listeners:
  "DraggableText_handleDragMove containerRef cx cy s = Finite s' \<Longrightarrow>
     dt_listeners s' = dt_listeners s \<and> dt_isDragging s' = dt_isDragging s
     \<and> dt_dragStartPos s' = dt_dragStartPos s"
  by (auto simp add: DraggableText_handleDragMove_def Let_def split: if_splits option.splits)

lemma text_step_ok:
  assumes "text_listeners_ok s" and "DraggableText_step e s = Finite s'"
  shows "text_listeners_ok s'"
proof (cases e)
  case (TextMouseDown containerRef textRef ev)
  have "dt_listeners (DraggableText_onMouseDown containerRef textRef ev s) = dt_listeners s"
    by (simp add: DraggableText_onMouseDown_def DraggableText_handleDragStart_def
        split: option.splits)
  with assms TextMouseDown show ?thesis
    by (auto intro: text_effect_ok_after)
next
  case (TextWindowMouseMove containerRef ev)
  show ?thesis
  proof (cases "''mousemove'' \<in> set (dt_listeners s)")
    case True
    with assms(2) TextWindowMouseMove obtain s1 where
      s1: "DraggableText_handleDragMove containerRef (clientX ev) (clientY ev) s = Finite s1"
        "s' = DraggableText_effect s1"
      by (cases "DraggableText_handleDragMove containerRef (clientX ev) (clientY ev) s") auto
    from text_handleDragMove_listeners [OF s1(1)] assms(1) show ?thesis
      unfolding s1(2) by (auto intro: text_effect_ok_after)
  next
    case False
    with assms TextWindowMouseMove show ?thesis by simp
  qed
next
  case TextWindowMouseUp
  have "dt_listeners (DraggableText_handleDragEnd s) = dt_listeners s"
    by (simp add: DraggableText_handleDragEnd_def)
  with assms TextWindowMouseUp show ?thesis
    by (auto intro: text_effect_ok_after split: if_splits)
qed

lemma text_mount_ok: "text_listeners_ok (DraggableText_mount overlay)"
  by (simp add: text_listeners_ok_def DraggableText_mount_def DraggableText_effect_def
      removeEventListeners_def Let_def)

lemma crop_effect_ok_after:
  "crop_listeners_ok s \<Longrightarrow> cb_listeners s' = cb_listeners s \<Longrightarrow>
     crop_listeners_ok (CropBox_effect s')"
  by (auto simp add: crop_listeners_ok_def CropBox_effect_def removeEventListeners_def
      addEventListeners_def Let_def split: if_splits)

lemma crop_handleMouseMove_fields:
  "CropBox_handleMouseMove containerRef e s = Finite s' \<Longrightarrow>
     cb_listeners s' = cb_listeners s \<and> cb_isDragging s' = cb_isDragging s
     \<and> cb_resizeHandle s' = cb_resizeHandle s \<and> cb_dragStart s' = cb_dragStart s"
  by (auto simp add: CropBox_handleMouseMove_def setCropState_def split: if_splits option.splits)

lemma crop_step_ok:
  assumes "crop_listeners_ok s" and "CropBox_step e s = Finite s'"
  shows "crop_listeners_ok s'"
proof (cases e)
  case (CropMouseDown ev handle)
  have "cb_listeners (CropBox_handleMouseDown ev handle s) = cb_listeners s"
    by (simp add: CropBox_handleMouseDown_def)
  with assms CropMouseDown show ?thesis
    by (auto intro: crop_effect_ok_after)
next
  case (CropWindowMouseMove containerRef ev)
  show ?thesis
  proof (cases "''mousemove'' \<in> set (cb_listeners s)")
    case True
    with assms(2) CropWindowMouseMove obtain s1 where
      s1: "CropBox_handleMouseMove containerRef ev s = Finite s1" "s' = CropBox_effect s1"
      by (cases "CropBox_handleMouseMove containerRef ev s") auto
    from crop_handleMouseMove_fields [OF s1(1)] assms(1) show ?thesis
      unfolding s1(2) by (auto intro: crop_effect_ok_after)
  next
    case False
    with assms CropWindowMouseMove show ?thesis by simp
  qed
next
  case CropWindowMouseUp
  have "cb_listeners (CropBox_handleMouseUp s) = cb_listeners s"
    by (simp add: CropBox_handleMouseUp_def)
  with assms CropWindowMouseUp show ?thesis
    by (auto intro: crop_effect_ok_after split: if_splits)
qed

lemma crop_mount_ok: "crop_listeners_ok (CropBox_mount c)"
  by (simp add: crop_listeners_ok_def CropBox_mount_def CropBox_effect_def
      removeEventListeners_def Let_def)

lemma comparator_moveSlider_fields:
  "ImageComparator_moveSlider containerRef cx s = Finite s' \<Longrightarrow>
     ic_listeners s' = ic_listeners s \<and> ic_isDragging s' = ic_isDragging s"
  by (auto simp add: ImageComparator_moveSlider_def Let_def split: if_splits option.splits)

lemma comparator_step_ok:
  assumes "comparator_listeners_ok s" and "ImageComparator_step e s = Finite s'"
  shows "comparator_listeners_ok s'"
proof (cases e)
  case (ComparatorPointerDown containerRef cx)
  with assms(2) have "ic_listeners s' = ic_listeners s"
    using comparator_moveSlider_fields [of containerRef cx "s\<lparr>ic_isDragging := True\<rparr>" s']
    by (simp add: ImageComparator_handleInteractionStart_def)
  with assms(1) show ?thesis by (simp add: comparator_listeners_ok_def)
next
  case (ComparatorWindowMove containerRef cx)
  with assms(2) have "ic_listeners s' = ic_listeners s"
    using comparator_moveSlider_fields [of containerRef cx s s']
    by (auto simp add: ImageComparator_handleInteractionMove_def split: if_splits)
  with assms(1) show ?thesis by (simp add: comparator_listeners_ok_def)
next
  case ComparatorWindowEnd
  with assms show ?thesis
    by (auto simp add: comparator_listeners_ok_def ImageComparator_handleInteractionEnd_def
        split: if_splits)
qed

lemma comparator_mount_ok: "comparator_listeners_ok ImageComparator_mount"
  by (simp add: comparator_listeners_ok_def ImageComparator_mount_def addEventListeners_def)

lemma comparator_unmount_removes_listeners:
  "comparator_listeners_ok s \<Longrightarrow> ic_listeners (ImageComparator_unmount s) = []"
  by (simp add: comparator_listeners_ok_def ImageComparator_unmount_def removeEventListeners_def)

lemma text_step_open:
  assumes "text_listeners_ok s" and "DraggableText_step e s = Finite s'"
  shows "dt_isDragging s' = text_open (dt_isDragging s) e"
proof (cases e)
  case (TextMouseDown containerRef textRef ev)
  with assms(2) show ?thesis
    by (auto simp add: DraggableText_effect_def DraggableText_onMouseDown_def
        DraggableText_handleDragStart_def Let_def split: option.splits)
next
  case (TextWindowMouseMove containerRef ev)
  show ?thesis
  proof (cases "''mousemove'' \<in> set (dt_listeners s)")
    case True
    with assms(2) TextWindowMouseMove obtain s1 where
      s1: "DraggableText_handleDragMove containerRef (clientX ev) (clientY ev) s = Finite s1"
        "s' = DraggableText_effect s1"
      by (cases "DraggableText_handleDragMove containerRef (clientX ev) (clientY ev) s") auto
    from text_handleDragMove_listeners [OF s1(1)] show ?thesis
      unfolding s1(2) TextWindowMouseMove by (simp add: DraggableText_effect_def Let_def)
  next
    case False
    with assms(2) TextWindowMouseMove show ?thesis by simp
  qed
next
  case TextWindowMouseUp
  with assms show ?thesis
    by (auto simp add: text_listeners_ok_def DraggableText_effect_def DraggableText_handleDragEnd_def
        Let_def split: if_splits)
qed

lemma text_run_open:
  assumes "text_listeners_ok s" and "run_events DraggableText_step es s = Finite s'"
  shows "text_listeners_ok s' \<and> dt_isDragging s' = foldl text_open (dt_isDragging s) es"
  using assms
proof (induction es arbitrary: s)
  case Nil
  then show ?case by simp
next
  case (Cons e es)
  from Cons.prems(2) obtain s1 where
    s1: "DraggableText_step e s = Finite s1" "run_events DraggableText_step es s1 = Finite s'"
    by (auto split: js.splits)
  from Cons.IH [OF text_step_ok [OF Cons.prems(1) s1(1)] s1(2)]
    text_step_open [OF Cons.prems(1) s1(1)]
  show ?case by simp
qed

lemma crop_step_open:
  assumes "crop_listeners_ok s" and "CropBox_step e s = Finite s'"
  shows "(cb_isDragging s' \<or> truthy (cb_resizeHandle s'))
           = crop_open (cb_isDragging s \<or> truthy (cb_resizeHandle s)) e"
proof (cases e)
  case (CropMouseDown ev handle)
  with assms(2) show ?thesis
    by (auto simp add: CropBox_effect_def CropBox_handleMouseDown_def Let_def)
next
  case (CropWindowMouseMove containerRef ev)
  show ?thesis
  proof (cases "''mousemove'' \<in> set (cb_listeners s)")
    case True
    with assms(2) CropWindowMouseMove obtain s1 where
      s1: "CropBox_handleMouseMove containerRef ev s = Finite s1" "s' = CropBox_effect s1"
      by (cases "CropBox_handleMouseMove containerRef ev s") auto
    from crop_handleMouseMove_fields [OF s1(1)] show ?thesis
      unfolding s1(2) CropWindowMouseMove by (simp add: CropBox_effect_def Let_def)
  next
    case False
    with assms(2) CropWindowMouseMove show ?thesis by simp
  qed
next
  case CropWindowMouseUp
  with assms show ?thesis
    by (auto simp add: crop_listeners_ok_def CropBox_effect_def CropBox_handleMouseUp_def
        Let_def split: if_splits)
qed

lemma crop_run_open:
  assumes "crop_listeners_ok s" and "run_events CropBox_step es s = Finite s'"
  shows "crop_listeners_ok s'
     \<and> (cb_isDragging s' \<or> truthy (cb_resizeHandle s'))
         = foldl crop_open (cb_isDragging s \<or> truthy (cb_resizeHandle s)) es"
  using assms
proof (induction es arbitrary: s)
  case Nil
  then show ?case by simp
next
  case (Cons e es)
  from Cons.prems(2) obtain s1 where
    s1: "CropBox_step e s = Finite s1" "run_events CropBox_step es s1 = Finite s'"
    by (auto split: js.splits)
  from Cons.IH [OF crop_step_ok [OF Cons.prems(1) s1(1)] s1(2)]
    crop_step_open [OF Cons.prems(1) s1(1)]
  show ?case by simp
qed

lemma comparator_step_open:
  assumes "comparator_listeners_ok s" and "ImageComparator_step e s = Finite s'"
  shows "ic_isDragging s' = comparator_open (ic_isDragging s) e"
proof (cases e)
  case (ComparatorPointerDown containerRef cx)
  with assms(2) show ?thesis
    using comparator_moveSlider_fields [of containerRef cx "s\<lparr>ic_isDragging := True\<rparr>" s']
    by (simp add: ImageComparator_handleInteractionStart_def)
next
  case (ComparatorWindowMove containerRef cx)
  with assms(2) show ?thesis
    using comparator_moveSlider_fields [of containerRef cx s s']
    by (auto simp add: ImageComparator_handleInteractionMove_def split: if_splits)
next
  case ComparatorWindowEnd
  with assms show ?thesis
    by (auto simp add: comparator_listeners_ok_def ImageComparator_handleInteractionEnd_def)
qed

lemma comparator_run_open:
  assumes "comparator_listeners_ok s" and "run_events ImageComparator_step es s = Finite s'"
  shows "comparator_listeners_ok s' \<and> ic_isDragging s' = foldl comparator_open (ic_isDragging s) es"
  using assms
proof (induction es arbitrary: s)
  case Nil
  then show ?case by simp
next
  case (Cons e es)
  from Cons.prems(2) obtain s1 where
    s1: "ImageComparator_step e s = Finite s1" "run_events ImageComparator_step es s1 = Finite s'"
    by (auto split: js.splits)
  from Cons.IH [OF comparator_step_ok [OF Cons.prems(1) s1(1)] s1(2)]
    comparator_step_open [OF Cons.prems(1) s1(1)]
  show ?case by simp
qed

text \<open>
  C9, as the claim states it, fails for the comparator: a comparator that has just mounted
  is idle and has its four window listeners registered.
\<close>

theorem comparator_listeners_while_idle:
  "\<not> ic_isDragging ImageComparator_mount
   \<and> ic_listeners ImageComparator_mount = [''mousemove'', ''touchmove'', ''mouseup'', ''touchend'']"
  by (simp add: ImageComparator_mount_def addEventListeners_def)

text \<open>
  C9, amended. After any sequence of events on a mounted controller, each followed by React's
  commit: the text overlay has its four window listeners registered exactly when a gesture
  is open, that is from a mouse-down that starts a drag up to the next mouse-up, and none
  otherwise; the crop box has its two registered exactly when a gesture is open, from a
  mouse-down on the box or a handle up to the next mouse-up, and none otherwise; the
  comparator has its four registered throughout, also with no gesture open, and a window
  move event that arrives with no gesture open changes nothing.
\<close>

theorem listeners_follow_gesture:
  "(run_events DraggableText_step tes (DraggableText_mount overlay) = Finite ts
      \<longrightarrow> dt_listeners ts
            = (if text_gesture_open tes then [''mousemove'', ''mouseup'', ''touchmove'', ''touchend'']
               else []))
   \<and> (run_events CropBox_step ces (CropBox_mount c) = Finite cs
      \<longrightarrow> cb_listeners cs = (if crop_gesture_open ces then [''mousemove'', ''mouseup''] else []))
   \<and> (run_events ImageComparator_step ies ImageComparator_mount = Finite ics
      \<longrightarrow> ic_listeners ics = [''mousemove'', ''touchmove'', ''mouseup'', ''touchend'']
          \<and> (\<not> comparator_gesture_open ies
                \<longrightarrow> ImageComparator_step (ComparatorWindowMove containerRef cx) ics = Finite ics))"
proof (intro conjI impI)
  assume "run_events DraggableText_step tes (DraggableText_mount overlay) = Finite ts"
  from text_run_open [OF text_mount_ok this]
  have "text_listeners_ok ts" "dt_isDragging ts = text_gesture_open tes"
    by (simp_all add: text_gesture_open_def DraggableText_mount_def DraggableText_effect_def Let_def)
  then show "dt_listeners ts
      = (if text_gesture_open tes then [''mousemove'', ''mouseup'', ''touchmove'', ''touchend'']
         else [])"
    by (simp add: text_listeners_ok_def)
next
  assume "run_events CropBox_step ces (CropBox_mount c) = Finite cs"
  from crop_run_open [OF crop_mount_ok this]
  have "crop_listeners_ok cs" "(cb_isDragging cs \<or> truthy (cb_resizeHandle cs)) = crop_gesture_open ces"
    by (simp_all add: crop_gesture_open_def CropBox_mount_def CropBox_effect_def Let_def)
  then show "cb_listeners cs = (if crop_gesture_open ces then [''mousemove'', ''mouseup''] else [])"
    by (simp add: crop_listeners_ok_def)
next
  assume run: "run_events ImageComparator_step ies ImageComparator_mount = Finite ics"
  from comparator_run_open [OF comparator_mount_ok run]
  show "ic_listeners ics = [''mousemove'', ''touchmove'', ''mouseup'', ''touchend'']"
    by (simp add: comparator_listeners_ok_def)
  assume "\<not> comparator_gesture_open ies"
  with comparator_run_open [OF comparator_mount_ok run]
  have "\<not> ic_isDragging ics"
    by (simp add: comparator_gesture_open_def ImageComparator_mount_def)
  then show "ImageComparator_step (ComparatorWindowMove containerRef cx) ics = Finite ics"
    by (simp add: ImageComparator_handleInteractionMove_def)
qed

theorem listeners_follow_gesture_witness:
  "run_events DraggableText_step
       [TextMouseDown (Some \<lparr>rect_left = 0, rect_top = 0, rect_width = 200, rect_height = 100\<rparr>)
          (Some \<lparr>rect_left = 80, rect_top = 40, rect_width = 40, rect_height = 20\<rparr>)
          \<lparr>clientX = 100, clientY = 50, button = 0\<rparr>]
       (DraggableText_mount
          \<lparr>to_text = ''Hi'', to_color = ''#ffffff'', to_size = 5, to_font = ''Arial'',
           to_x = 50, to_y = 50\<rparr>)
     = Finite
       \<lparr>dt_isDragging = True,
        dt_dragStartPos = \<lparr>tds_x = 100, tds_y = 50, tds_textX = 80, tds_textY = 40\<rparr>,
        dt_textOverlay = \<lparr>to_text = ''Hi'', to_color = ''#ffffff'', to_size = 5, to_font = ''Arial'',
                          to_x = 50, to_y = 50\<rparr>,
        dt_listeners = [''mousemove'', ''mouseup'', ''touchmove'', ''touchend'']\<rparr>
   \<and> (\<exists>ts. run_events DraggableText_step
              [TextMouseDown (Some \<lparr>rect_left = 0, rect_top = 0, rect_width = 200, rect_height = 100\<rparr>)
                 (Some \<lparr>rect_left = 80, rect_top = 40, rect_width = 40, rect_height = 20\<rparr>)
                 \<lparr>clientX = 100, clientY = 50, button = 0\<rparr>,
               TextWindowMouseMove
                 (Some \<lparr>rect_left = 0, rect_top = 0, rect_width = 200, rect_height = 100\<rparr>)
                 \<lparr>clientX = 120, clientY = 60, button = 0\<rparr>,
               TextWindowMouseUp]
              (DraggableText_mount
                 \<lparr>to_text = ''Hi'', to_color = ''#ffffff'', to_size = 5, to_font = ''Arial'',
                  to_x = 50, to_y = 50\<rparr>)
            = Finite ts
          \<and> dt_listeners ts = [])
   \<and> (\<exists>cs. run_events CropBox_step
              [CropMouseDown \<lparr>clientX = 20, clientY = 10, button = 0\<rparr> (Some ''top-left'')]
              (CropBox_mount \<lparr>crop_x = 10, crop_y = 10, crop_width = 80, crop_height = 80\<rparr>)
            = Finite cs
          \<and> cb_listeners cs = [''mousemove'', ''mouseup''])
   \<and> (\<exists>cs. run_events CropBox_step
              [CropMouseDown \<lparr>clientX = 20, clientY = 10, button = 0\<rparr> (Some ''top-left''),
               CropWindowMouseMove
                 (Some \<lparr>rect_left = 0, rect_top = 0, rect_width = 200, rect_height = 100\<rparr>)
                 \<lparr>clientX = 40, clientY = 20, button = 0\<rparr>,
               CropWindowMouseUp]
              (CropBox_mount \<lparr>crop_x = 10, crop_y = 10, crop_width = 80, crop_height = 80\<rparr>)
            = Finite cs
          \<and> cb_listeners cs = [])
   \<and> run_events ImageComparator_step
       [ComparatorPointerDown
          (Some \<lparr>rect_left = 0, rect_top = 0, rect_width = 200, rect_height = 100\<rparr>) 60,
        ComparatorWindowEnd]
       ImageComparator_mount
     = Finite \<lparr>ic_sliderPosition = 30, ic_isDragging = False,
               ic_listeners = [''mousemove'', ''touchmove'', ''mouseup'', ''touchend'']\<rparr>
   \<and> \<not> comparator_gesture_open
         [ComparatorPointerDown
            (Some \<lparr>rect_left = 0, rect_top = 0, rect_width = 200, rect_height = 100\<rparr>) 60,
          ComparatorWindowEnd]
   \<and> ImageComparator_step
       (ComparatorWindowMove
          (Some \<lparr>rect_left = 0, rect_top = 0, rect_width = 200, rect_height = 100\<rparr>) 150)
       \<lparr>ic_sliderPosition = 30, ic_isDragging = False,
        ic_listeners = [''mousemove'', ''touchmove'', ''mouseup'', ''touchend'']\<rparr>
     = Finite \<lparr>ic_sliderPosition = 30, ic_isDragging = False,
               ic_listeners = [''mousemove'', ''touchmove'', ''mouseup'', ''touchend'']\<rparr>"
proof -
  let ?rect = "\<lparr>rect_left = 0, rect_top = 0, rect_width = 200, rect_height = 100\<rparr>"
  let ?overlay = "\<lparr>to_text = ''Hi'', to_color = ''#ffffff'', to_size = 5, to_font = ''Arial'',
           to_x = 50, to_y = 50\<rparr>"
  let ?down = "TextMouseDown (Some ?rect)
          (Some \<lparr>rect_left = 80, rect_top = 40, rect_width = 40, rect_height = 20\<rparr>)
          \<lparr>clientX = 100, clientY = 50, button = 0\<rparr>"
  let ?tes1 = "[?down]"
  let ?tes2 = "[?down, TextWindowMouseMove (Some ?rect) \<lparr>clientX = 120, clientY = 60, button = 0\<rparr>,
                TextWindowMouseUp]"
  let ?ts1 = "\<lparr>dt_isDragging = True,
        dt_dragStartPos = \<lparr>tds_x = 100, tds_y = 50, tds_textX = 80, tds_textY = 40\<rparr>,
        dt_textOverlay = ?overlay,
        dt_listeners = [''mousemove'', ''mouseup'', ''touchmove'', ''touchend'']\<rparr>"
  let ?ts2 = "\<lparr>dt_isDragging = False,
        dt_dragStartPos = \<lparr>tds_x = 100, tds_y = 50, tds_textX = 80, tds_textY = 40\<rparr>,
        dt_textOverlay = ?overlay,
        dt_listeners = []\<rparr>"
  let ?c = "\<lparr>crop_x = 10, crop_y = 10, crop_width = 80, crop_height = 80\<rparr>"
  let ?cdown = "CropMouseDown \<lparr>clientX = 20, clientY = 10, button = 0\<rparr> (Some ''top-left'')"
  let ?ces1 = "[?cdown]"
  let ?ces2 = "[?cdown, CropWindowMouseMove (Some ?rect) \<lparr>clientX = 40, clientY = 20, button = 0\<rparr>,
                CropWindowMouseUp]"
  let ?ies = "[ComparatorPointerDown (Some ?rect) 60, ComparatorWindowEnd]"
  let ?ics = "\<lparr>ic_sliderPosition = 30, ic_isDragging = False,
               ic_listeners = [''mousemove'', ''touchmove'', ''mouseup'', ''touchend'']\<rparr>"
  have inc: "str_includes ''top-left'' ''left''" "str_includes ''top-left'' ''top''"
    "\<not> str_includes ''top-left'' ''right''" "\<not> str_includes ''top-left'' ''bottom''"
    by (simp_all add: str_includes_def sublist_Cons_right)
  have t1: "run_events DraggableText_step ?tes1 (DraggableText_mount ?overlay) = Finite ?ts1"
    by (simp add: DraggableText_mount_def DraggableText_effect_def DraggableText_onMouseDown_def
        DraggableText_handleDragStart_def removeEventListeners_def addEventListeners_def Let_def)
  have t2: "run_events DraggableText_step ?tes2 (DraggableText_mount ?overlay) = Finite ?ts2"
    by (simp add: DraggableText_mount_def DraggableText_effect_def DraggableText_onMouseDown_def
        DraggableText_handleDragStart_def DraggableText_handleDragMove_def
        DraggableText_handleDragEnd_def removeEventListeners_def addEventListeners_def Let_def)
  obtain cs1 where c1: "run_events CropBox_step ?ces1 (CropBox_mount ?c) = Finite cs1"
    by simp
  obtain cs2 where c2: "run_events CropBox_step ?ces2 (CropBox_mount ?c) = Finite cs2"
    by (simp add: CropBox_mount_def CropBox_effect_def CropBox_handleMouseDown_def
        CropBox_handleMouseUp_def CropBox_handleMouseMove_def setCropState_def rect_of_def
        crop_clamp_def CropBox_move_candidate_def crop_candidate_def num_rect_def inc
        removeEventListeners_def addEventListeners_def Let_def)
  have i: "run_events ImageComparator_step ?ies ImageComparator_mount = Finite ?ics"
    by (simp add: ImageComparator_handleInteractionStart_def ImageComparator_moveSlider_def
        ImageComparator_handleInteractionEnd_def ImageComparator_mount_def addEventListeners_def
        Let_def)
  have o: "text_gesture_open ?tes1" "\<not> text_gesture_open ?tes2"
    "crop_gesture_open ?ces1" "\<not> crop_gesture_open ?ces2" "\<not> comparator_gesture_open ?ies"
    by (simp_all add: text_gesture_open_def crop_gesture_open_def comparator_gesture_open_def)
  note inst1 = listeners_follow_gesture [of ?tes2 ?overlay ?ts2 ?ces1 ?c cs1 ?ies ?ics "Some ?rect" 150]
  note inst2 = listeners_follow_gesture [of ?tes1 ?overlay ?ts1 ?ces2 ?c cs2 ?ies ?ics "Some ?rect" 150]
  have l1: "cb_listeners cs1 = [''mousemove'', ''mouseup'']"
    using inst1 c1 o by simp
  have l2: "cb_listeners cs2 = []"
    using inst2 c2 o by simp
  have l3: "dt_listeners ?ts2 = []"
    using inst1 t2 o by simp
  have m: "ImageComparator_step (ComparatorWindowMove (Some ?rect) 150) ?ics = Finite ?ics"
    using inst1 i o by simp
  show ?thesis
    using t1 t2 l3 c1 l1 c2 l2 i o(5) m by blast
qed


section \<open>Properties of complete gestures\<close>

lemma run_events_append:
  "run_events step (xs @ ys) s
     = (case run_events step xs s of NonFinite \<Rightarrow> NonFinite | Finite s' \<Rightarrow> run_events step ys s')"
  by (induction xs arbitrary: s) (simp_all split: js.splits)

lemma crop_candidate_zero:
  "crop_candidate isDragging resizeHandle (num_rect snap) (Num 0) (Num 0) = num_rect snap"
  by (simp add: crop_candidate_def num_rect_def Let_def)

lemma crop_move_candidate_cong:
  "cb_isDragging s' = cb_isDragging s \<Longrightarrow> cb_resizeHandle s' = cb_resizeHandle s \<Longrightarrow>
   cb_dragStart s' = cb_dragStart s \<Longrightarrow>
     CropBox_move_candidate rect e s' = CropBox_move_candidate rect e s"
  by (simp add: CropBox_move_candidate_def)

lemma crop_moves:
  assumes "rect_width rect \<noteq> 0" and "rect_height rect \<noteq> 0"
    and "''mousemove'' \<in> set (cb_listeners s)" and "crop_listeners_ok s"
  shows "\<exists>s'. run_events CropBox_step (map (CropWindowMouseMove (Some rect)) moves) s = Finite s'
           \<and> cb_isDragging s' = cb_isDragging s \<and> cb_resizeHandle s' = cb_resizeHandle s
           \<and> cb_dragStart s' = cb_dragStart s \<and> cb_listeners s' = cb_listeners s
           \<and> cb_cropState s'
               = (if moves = [] then cb_cropState s
                  else the (rect_of (crop_clamp (CropBox_move_candidate rect (last moves) s))))"
  using assms(3,4)
proof (induction moves arbitrary: s)
  case Nil
  then show ?case by simp
next
  case (Cons e moves)
  define r where "r = the (rect_of (crop_clamp (CropBox_move_candidate rect e s)))"
  define s1 where "s1 = CropBox_effect (s\<lparr>cb_cropState := r\<rparr>)"
  from crop_move_candidate_finite [OF assms(1,2), of e s] obtain cand where
    "CropBox_move_candidate rect e s = num_rect cand" by blast
  then have "CropBox_handleMouseMove (Some rect) e s = Finite (s\<lparr>cb_cropState := r\<rparr>)"
    by (simp add: CropBox_handleMouseMove_def setCropState_def crop_clamp_num_rect
        rect_of_num_rect r_def)
  then have step: "CropBox_step (CropWindowMouseMove (Some rect) e) s = Finite s1"
    using Cons.prems(1) by (simp add: s1_def)
  have ok1: "crop_listeners_ok s1"
    using crop_step_ok [OF Cons.prems(2) step] .
  have f1: "cb_isDragging s1 = cb_isDragging s" "cb_resizeHandle s1 = cb_resizeHandle s"
    "cb_dragStart s1 = cb_dragStart s"
    "cb_cropState s1 = the (rect_of (crop_clamp (CropBox_move_candidate rect e s)))"
    by (simp_all add: s1_def r_def CropBox_effect_def Let_def)
  have l1: "cb_listeners s1 = cb_listeners s"
    using ok1 Cons.prems(2) f1 by (simp add: crop_listeners_ok_def)
  then have m1: "''mousemove'' \<in> set (cb_listeners s1)"
    using Cons.prems(1) by simp
  from Cons.IH [OF m1 ok1] obtain s' where
    s': "run_events CropBox_step (map (CropWindowMouseMove (Some rect)) moves) s1 = Finite s'"
      "cb_isDragging s' = cb_isDragging s1" "cb_resizeHandle s' = cb_resizeHandle s1"
      "cb_dragStart s' = cb_dragStart s1" "cb_listeners s' = cb_listeners s1"
      "cb_cropState s' = (if moves = [] then cb_cropState s1
                          else the (rect_of (crop_clamp (CropBox_move_candidate rect (last moves) s1))))"
    by blast
  have "CropBox_move_candidate rect (last moves) s1 = CropBox_move_candidate rect (last moves) s"
    using f1 by (intro crop_move_candidate_cong)
  with s' f1 l1 step show ?case by simp
qed

lemma crop_zero_delta_candidate:
  assumes "clientX e = start_mouseX (cb_dragStart s)" and "clientY e = start_mouseY (cb_dragStart s)"
    and "rect_width rect \<noteq> 0" and "rect_height rect \<noteq> 0"
  shows "CropBox_move_candidate rect e s = num_rect (start_crop (cb_dragStart s))"
  using assms by (simp add: CropBox_move_candidate_def crop_candidate_zero)

lemma crop_gesture_zero_net:
  assumes inv: "crop_inv (cb_cropState s0)"
    and idle: "cb_listeners s0 = []"
    and rect: "rect_width rect \<noteq> 0" "rect_height rect \<noteq> 0"
    and ret: "moves = [] \<or> (clientX (last moves) = clientX down \<and> clientY (last moves) = clientY down)"
  shows "\<exists>s. CropBox_gesture (Some rect) down handle moves s0 = Finite s
           \<and> cb_cropState s = cb_cropState s0"
proof -
  define s1 where "s1 = CropBox_effect (CropBox_handleMouseDown down handle s0)"
  have active: "cb_isDragging s1 \<or> truthy (cb_resizeHandle s1)"
    by (simp add: s1_def CropBox_effect_def CropBox_handleMouseDown_def Let_def)
  have l1: "cb_listeners s1 = [''mousemove'', ''mouseup'']"
    using idle active
    by (simp add: s1_def CropBox_effect_def CropBox_handleMouseDown_def Let_def
        removeEventListeners_def addEventListeners_def)
  then have ok1: "crop_listeners_ok s1"
    using active by (simp add: crop_listeners_ok_def)
  have f1: "cb_cropState s1 = cb_cropState s0"
    "cb_dragStart s1 = \<lparr>start_mouseX = clientX down, start_mouseY = clientY down,
                         start_crop = cb_cropState s0\<rparr>"
    by (simp_all add: s1_def CropBox_effect_def CropBox_handleMouseDown_def Let_def)
  from crop_moves [OF rect _ ok1, of moves] l1 obtain s2 where
    s2: "run_events CropBox_step (map (CropWindowMouseMove (Some rect)) moves) s1 = Finite s2"
      "cb_listeners s2 = cb_listeners s1"
      "cb_cropState s2 = (if moves = [] then cb_cropState s1
                          else the (rect_of (crop_clamp (CropBox_move_candidate rect (last moves) s1))))"
    by auto
  have c2: "cb_cropState s2 = cb_cropState s0"
  proof (cases "moves = []")
    case True
    with s2(3) f1 show ?thesis by simp
  next
    case False
    with ret f1 rect have "CropBox_move_candidate rect (last moves) s1 = num_rect (cb_cropState s0)"
      by (simp add: crop_zero_delta_candidate)
    with False s2(3) inv show ?thesis by (simp add: crop_clamp_id rect_of_num_rect)
  qed
  have up: "CropBox_step CropWindowMouseUp s2 = Finite (CropBox_effect (CropBox_handleMouseUp s2))"
    using s2(2) l1 by simp
  have "CropBox_gesture (Some rect) down handle moves s0
          = Finite (CropBox_effect (CropBox_handleMouseUp s2))"
    using s2(1) up by (simp add: CropBox_gesture_def run_events_append s1_def)
  moreover have "cb_cropState (CropBox_effect (CropBox_handleMouseUp s2)) = cb_cropState s0"
    using c2 by (simp add: CropBox_effect_def CropBox_handleMouseUp_def Let_def)
  ultimately show ?thesis by blast
qed

lemma comparator_moves:
  assumes "rect_width rect \<noteq> 0" and "''mousemove'' \<in> set (ic_listeners s)" and "ic_isDragging s"
  shows "\<exists>s'. run_events ImageComparator_step (map (ComparatorWindowMove (Some rect)) moves) s
                = Finite s'
           \<and> ic_isDragging s' \<and> ic_listeners s' = ic_listeners s
           \<and> ic_sliderPosition s'
               = (if moves = [] then ic_sliderPosition s
                  else (max 0 (min (last moves - rect_left rect) (rect_width rect))
                          / rect_width rect) * 100)"
  using assms(2,3)
proof (induction moves arbitrary: s)
  case Nil
  then show ?case by simp
next
  case (Cons cx moves)
  define s1 where
    "s1 = s\<lparr>ic_sliderPosition :=
              (max 0 (min (cx - rect_left rect) (rect_width rect)) / rect_width rect) * 100\<rparr>"
  have step: "ImageComparator_step (ComparatorWindowMove (Some rect) cx) s = Finite s1"
    using assms(1) Cons.prems
    by (simp add: ImageComparator_handleInteractionMove_def ImageComparator_moveSlider_def
        Let_def s1_def)
  have f1: "ic_isDragging s1" "ic_listeners s1 = ic_listeners s"
    using Cons.prems by (simp_all add: s1_def)
  then have "''mousemove'' \<in> set (ic_listeners s1)" using Cons.prems(1) by simp
  from Cons.IH [OF this f1(1)] f1 step show ?case
    by (auto simp add: s1_def)
qed

lemma comparator_gesture_zero_net:
  assumes rect: "rect_width rect \<noteq> 0"
    and mounted: "ic_listeners s0 = [''mousemove'', ''touchmove'', ''mouseup'', ''touchend'']"
    and ret: "moves = [] \<or> last moves = down"
  shows "\<exists>s1 s. ImageComparator_handleInteractionStart (Some rect) down s0 = Finite s1
           \<and> ImageComparator_gesture (Some rect) down moves s0 = Finite s
           \<and> ic_sliderPosition s = ic_sliderPosition s1"
proof -
  define s1 where
    "s1 = s0\<lparr>ic_isDragging := True,
              ic_sliderPosition :=
                (max 0 (min (down - rect_left rect) (rect_width rect)) / rect_width rect) * 100\<rparr>"
  have start: "ImageComparator_handleInteractionStart (Some rect) down s0 = Finite s1"
    using rect
    by (simp add: ImageComparator_handleInteractionStart_def ImageComparator_moveSlider_def
        Let_def s1_def)
  have f1: "ic_isDragging s1" "ic_listeners s1 = ic_listeners s0"
    by (simp_all add: s1_def)
  then have m1: "''mousemove'' \<in> set (ic_listeners s1)" using mounted by simp
  from comparator_moves [OF rect m1 f1(1), of moves] obtain s2 where
    s2: "run_events ImageComparator_step (map (ComparatorWindowMove (Some rect)) moves) s1
           = Finite s2"
      "ic_listeners s2 = ic_listeners s1"
      "ic_sliderPosition s2
         = (if moves = [] then ic_sliderPosition s1
            else (max 0 (min (last moves - rect_left rect) (rect_width rect))
                    / rect_width rect) * 100)"
    by blast
  have p2: "ic_sliderPosition s2 = ic_sliderPosition s1"
    using s2(3) ret by (auto simp add: s1_def)
  have up: "ImageComparator_step ComparatorWindowEnd s2
              = Finite (ImageComparator_handleInteractionEnd s2)"
    using s2(2) f1(2) mounted by simp
  have "ImageComparator_gesture (Some rect) down moves s0
          = Finite (ImageComparator_handleInteractionEnd s2)"
    using start s2(1) up by (simp add: ImageComparator_gesture_def run_events_append)
  moreover have "ic_sliderPosition (ImageComparator_handleInteractionEnd s2) = ic_sliderPosition s1"
    using p2 by (simp add: ImageComparator_handleInteractionEnd_def)
  ultimately show ?thesis using start by blast
qed

text \<open>
  The crop rectangle and the comparator slider under a gesture that ends where it began,
  over a container that stays in place: the crop rectangle is the snapshot again, provided
  the snapshot satisfies the crop invariants, and the comparator slider is where the
  pointer-down put it.
\<close>

theorem zero_net_gesture:
  assumes "crop_inv (cb_cropState cs0)" and "cb_listeners cs0 = []"
    and "rect_width crect \<noteq> 0" and "rect_height crect \<noteq> 0"
    and "cmoves = [] \<or> (clientX (last cmoves) = clientX cdown \<and> clientY (last cmoves) = clientY cdown)"
    and "rect_width irect \<noteq> 0"
    and "ic_listeners is0 = [''mousemove'', ''touchmove'', ''mouseup'', ''touchend'']"
    and "imoves = [] \<or> last imoves = idown"
  shows "(\<exists>s. CropBox_gesture (Some crect) cdown handle cmoves cs0 = Finite s
            \<and> cb_cropState s = cb_cropState cs0)
       \<and> (\<exists>s1 s. ImageComparator_handleInteractionStart (Some irect) idown is0 = Finite s1
            \<and> ImageComparator_gesture (Some irect) idown imoves is0 = Finite s
            \<and> ic_sliderPosition s = ic_sliderPosition s1)"
  using crop_gesture_zero_net [OF assms(1-5)] comparator_gesture_zero_net [OF assms(6-8)]
  by blast

theorem zero_net_gesture_witness:
  "crop_inv (cb_cropState (CropBox_mount \<lparr>crop_x = 10, crop_y = 10, crop_width = 80, crop_height = 80\<rparr>))
   \<and> cb_listeners (CropBox_mount \<lparr>crop_x = 10, crop_y = 10, crop_width = 80, crop_height = 80\<rparr>) = []
   \<and> rect_width \<lparr>rect_left = 0, rect_top = 0, rect_width = 200, rect_height = 100\<rparr> \<noteq> 0
   \<and> rect_height \<lparr>rect_left = 0, rect_top = 0, rect_width = 200, rect_height = 100\<rparr> \<noteq> 0
   \<and> clientX (last [\<lparr>clientX = 300, clientY = 70, button = 0\<rparr>,
                     \<lparr>clientX = 100, clientY = 50, button = 0\<rparr>])
       = clientX \<lparr>clientX = 100, clientY = 50, button = 0\<rparr>
   \<and> clientY (last [\<lparr>clientX = 300, clientY = 70, button = 0\<rparr>,
                     \<lparr>clientX = 100, clientY = 50, button = 0\<rparr>])
       = clientY \<lparr>clientX = 100, clientY = 50, button = 0\<rparr>
   \<and> ic_listeners ImageComparator_mount = [''mousemove'', ''touchmove'', ''mouseup'', ''touchend'']
   \<and> last [150, 60] = (60 :: real)
   \<and> (\<exists>s. CropBox_gesture (Some \<lparr>rect_left = 0, rect_top = 0, rect_width = 200, rect_height = 100\<rparr>)
              \<lparr>clientX = 100, clientY = 50, button = 0\<rparr> None
              [\<lparr>clientX = 300, clientY = 70, button = 0\<rparr>, \<lparr>clientX = 100, clientY = 50, button = 0\<rparr>]
              (CropBox_mount \<lparr>crop_x = 10, crop_y = 10, crop_width = 80, crop_height = 80\<rparr>)
            = Finite s
          \<and> cb_cropState s = \<lparr>crop_x = 10, crop_y = 10, crop_width = 80, crop_height = 80\<rparr>)
   \<and> (\<exists>s. ImageComparator_gesture
              (Some \<lparr>rect_left = 0, rect_top = 0, rect_width = 200, rect_height = 100\<rparr>)
              60 [150, 60] ImageComparator_mount
            = Finite s
          \<and> ic_sliderPosition s = 30)"
proof -
  let ?c = "\<lparr>crop_x = 10, crop_y = 10, crop_width = 80, crop_height = 80\<rparr>"
  let ?rect = "\<lparr>rect_left = 0, rect_top = 0, rect_width = 200, rect_height = 100\<rparr>"
  let ?down = "\<lparr>clientX = 100, clientY = 50, button = 0\<rparr>"
  let ?moves = "[\<lparr>clientX = 300, clientY = 70, button = 0\<rparr>, \<lparr>clientX = 100, clientY = 50, button = 0\<rparr>]"
  have c0: "cb_cropState (CropBox_mount ?c) = ?c" "cb_listeners (CropBox_mount ?c) = []"
    by (simp_all add: CropBox_mount_def CropBox_effect_def removeEventListeners_def Let_def)
  have h1: "crop_inv (cb_cropState (CropBox_mount ?c))"
    unfolding c0 by (simp add: crop_inv_def)
  have h3: "rect_width ?rect \<noteq> 0" and h4: "rect_height ?rect \<noteq> 0" by simp_all
  have h5: "?moves = [] \<or> (clientX (last ?moves) = clientX ?down \<and> clientY (last ?moves) = clientY ?down)"
    by simp
  have h7: "ic_listeners ImageComparator_mount = [''mousemove'', ''touchmove'', ''mouseup'', ''touchend'']"
    by (simp add: ImageComparator_mount_def addEventListeners_def)
  have h8: "[150, 60] = [] \<or> last [150, 60] = (60 :: real)" by simp
  have start: "ImageComparator_handleInteractionStart (Some ?rect) 60 ImageComparator_mount
      = Finite \<lparr>ic_sliderPosition = 30, ic_isDragging = True,
                ic_listeners = [''mousemove'', ''touchmove'', ''mouseup'', ''touchend'']\<rparr>"
    by (simp add: ImageComparator_handleInteractionStart_def ImageComparator_moveSlider_def
        ImageComparator_mount_def addEventListeners_def Let_def)
  note inst = zero_net_gesture [OF h1 c0(2) h3 h4 h5 h3 h7 h8, of None]
  from inst obtain s where
    s: "CropBox_gesture (Some ?rect) ?down None ?moves (CropBox_mount ?c) = Finite s"
       "cb_cropState s = cb_cropState (CropBox_mount ?c)"
    by blast
  from inst obtain s1 s' where
    s': "ImageComparator_handleInteractionStart (Some ?rect) 60 ImageComparator_mount = Finite s1"
        "ImageComparator_gesture (Some ?rect) 60 [150, 60] ImageComparator_mount = Finite s'"
        "ic_sliderPosition s' = ic_sliderPosition s1"
    by blast
  have "ic_sliderPosition s' = 30"
    using s'(1,3) unfolding start by auto
  with s s'(2) c0 h1 h7 show ?thesis by simp
qed

text \<open>
  C6 at a text overlay. \<^verbatim>\<open>handleDragStart\<close> records the top-left corner of the element's
  bounding rectangle, while the overlay's coordinates place its centre: a mouse-down on an
  overlay at (50%, 50%) measuring 40 by 20 in a 200 by 100 container, one move event at the
  same point and the mouse-up leave the overlay at (40%, 40%).
\<close>

theorem text_zero_drag_shifts:
  "DraggableText_gesture \<lparr>rect_left = 0, rect_top = 0, rect_width = 200, rect_height = 100\<rparr> 40 20
       \<lparr>clientX = 100, clientY = 50, button = 0\<rparr> [\<lparr>clientX = 100, clientY = 50, button = 0\<rparr>]
       (DraggableText_mount
          \<lparr>to_text = ''Hi'', to_color = ''#ffffff'', to_size = 5, to_font = ''Arial'',
           to_x = 50, to_y = 50\<rparr>)
     = Finite
       \<lparr>dt_isDragging = False,
        dt_dragStartPos = \<lparr>tds_x = 100, tds_y = 50, tds_textX = 80, tds_textY = 40\<rparr>,
        dt_textOverlay = \<lparr>to_text = ''Hi'', to_color = ''#ffffff'', to_size = 5, to_font = ''Arial'',
                          to_x = 40, to_y = 40\<rparr>,
        dt_listeners = []\<rparr>"
  by (simp add: DraggableText_gesture_def DraggableText_mount_def DraggableText_effect_def
      DraggableText_onMouseDown_def DraggableText_handleDragStart_def
      DraggableText_handleDragMove_def DraggableText_handleDragEnd_def
      DraggableText_boundingRect_def removeEventListeners_def addEventListeners_def Let_def)

text \<open>
  In general the first move event of a drag, with the pointer still where the mouse-down
  was, shifts the overlay by half the element's size, in percent of the container.
\<close>

lemma jsnum_divide_Num: "b \<noteq> 0 \<Longrightarrow> Num a / Num b = Num (a / b)"
  by simp

lemma text_zero_delta_move:
  assumes "rect_width containerRect \<noteq> 0" and "rect_height containerRect \<noteq> 0"
  shows "DraggableText_handleDragMove (Some containerRect) (clientX down) (clientY down)
           (DraggableText_onMouseDown (Some containerRect)
              (Some (DraggableText_boundingRect containerRect (dt_textOverlay s) w h)) down s)
         = Finite
           ((DraggableText_onMouseDown (Some containerRect)
               (Some (DraggableText_boundingRect containerRect (dt_textOverlay s) w h)) down s)
            \<lparr>dt_textOverlay := (dt_textOverlay s)
               \<lparr>to_x := max 0 (min 100 (to_x (dt_textOverlay s) - 50 * w / rect_width containerRect)),
                to_y := max 0 (min 100 (to_y (dt_textOverlay s) - 50 * h / rect_height containerRect))\<rparr>\<rparr>)"
proof -
  define s1 where
    "s1 = DraggableText_onMouseDown (Some containerRect)
            (Some (DraggableText_boundingRect containerRect (dt_textOverlay s) w h)) down s"
  have f: "dt_isDragging s1" "dt_textOverlay s1 = dt_textOverlay s"
    "tds_x (dt_dragStartPos s1) = clientX down" "tds_y (dt_dragStartPos s1) = clientY down"
    "tds_textX (dt_dragStartPos s1)
       = (to_x (dt_textOverlay s) / 100) * rect_width containerRect - w / 2"
    "tds_textY (dt_dragStartPos s1)
       = (to_y (dt_textOverlay s) / 100) * rect_height containerRect - h / 2"
    by (simp_all add: s1_def DraggableText_onMouseDown_def DraggableText_handleDragStart_def
        DraggableText_boundingRect_def)
  have ax: "((to_x (dt_textOverlay s) / 100) * rect_width containerRect - w / 2)
              / rect_width containerRect * 100
            = to_x (dt_textOverlay s) - 50 * w / rect_width containerRect"
    using assms(1) by (simp add: field_simps)
  have ay: "((to_y (dt_textOverlay s) / 100) * rect_height containerRect - h / 2)
              / rect_height containerRect * 100
            = to_y (dt_textOverlay s) - 50 * h / rect_height containerRect"
    using assms(2) by (simp add: field_simps)
  have px: "Math_max (Num 0) (Math_min (Num 100)
              ((Num (tds_textX (dt_dragStartPos s1) + (clientX down - tds_x (dt_dragStartPos s1)))
                 / Num (rect_width containerRect)) * Num 100))
            = Num (max 0 (min 100 (to_x (dt_textOverlay s) - 50 * w / rect_width containerRect)))"
    by (simp only: f jsnum_divide_Num [OF assms(1)] times_jsnum.simps Math_max.simps
        Math_min.simps diff_self add_0_right ax)
  have py: "Math_max (Num 0) (Math_min (Num 100)
              ((Num (tds_textY (dt_dragStartPos s1) + (clientY down - tds_y (dt_dragStartPos s1)))
                 / Num (rect_height containerRect)) * Num 100))
            = Num (max 0 (min 100 (to_y (dt_textOverlay s) - 50 * h / rect_height containerRect)))"
    by (simp only: f jsnum_divide_Num [OF assms(2)] times_jsnum.simps Math_max.simps
        Math_min.simps diff_self add_0_right ay)
  have "DraggableText_handleDragMove (Some containerRect) (clientX down) (clientY down) s1
         = Finite (s1\<lparr>dt_textOverlay := (dt_textOverlay s)
               \<lparr>to_x := max 0 (min 100 (to_x (dt_textOverlay s) - 50 * w / rect_width containerRect)),
                to_y := max 0 (min 100 (to_y (dt_textOverlay s) - 50 * h / rect_height containerRect))\<rparr>\<rparr>)"
    unfolding DraggableText_handleDragMove_def Let_def option.case px py
    using f(1,2) by simp
  then show ?thesis by (simp only: s1_def)
qed


section \<open>Mouse buttons\<close>

text \<open>The pan surface returns at once for any button but the main one.\<close>

lemma pan_ignores_secondary_button:
  "button e \<noteq> 0 \<Longrightarrow> RightPanel_handleMouseDown canZoomPan targetInTool e s = s"
  by (simp add: RightPanel_handleMouseDown_def)

text \<open>
  C7 at a mouse-down with the secondary button (button 2): the text overlay starts
  dragging, the crop box starts moving, and a crop handle starts resizing, since neither
  \<^verbatim>\<open>onMouseDown\<close> of the text overlay nor \<^verbatim>\<open>handleMouseDown\<close> of the crop box reads the button.
\<close>

theorem secondary_button_starts_drag:
  "button \<lparr>clientX = 100, clientY = 50, button = 2\<rparr> = 2
   \<and> \<not> dt_isDragging (DraggableText_mount
          \<lparr>to_text = ''Hi'', to_color = ''#ffffff'', to_size = 5, to_font = ''Arial'',
           to_x = 50, to_y = 50\<rparr>)
   \<and> dt_isDragging
       (DraggableText_onMouseDown
          (Some \<lparr>rect_left = 0, rect_top = 0, rect_width = 200, rect_height = 100\<rparr>)
          (Some \<lparr>rect_left = 80, rect_top = 40, rect_width = 40, rect_height = 20\<rparr>)
          \<lparr>clientX = 100, clientY = 50, button = 2\<rparr>
          (DraggableText_mount
             \<lparr>to_text = ''Hi'', to_color = ''#ffffff'', to_size = 5, to_font = ''Arial'',
              to_x = 50, to_y = 50\<rparr>))
   \<and> \<not> cb_isDragging (CropBox_mount \<lparr>crop_x = 10, crop_y = 10, crop_width = 80, crop_height = 80\<rparr>)
   \<and> cb_isDragging
       (CropBox_handleMouseDown \<lparr>clientX = 100, clientY = 50, button = 2\<rparr> None
          (CropBox_mount \<lparr>crop_x = 10, crop_y = 10, crop_width = 80, crop_height = 80\<rparr>))
   \<and> cb_resizeHandle
       (CropBox_handleMouseDown \<lparr>clientX = 20, clientY = 10, button = 2\<rparr> (Some ''top-left'')
          (CropBox_mount \<lparr>crop_x = 10, crop_y = 10, crop_width = 80, crop_height = 80\<rparr>))
       = Some ''top-left''"
  by (simp add: DraggableText_mount_def DraggableText_effect_def DraggableText_onMouseDown_def
      DraggableText_handleDragStart_def CropBox_mount_def CropBox_effect_def
      CropBox_handleMouseDown_def removeEventListeners_def Let_def)

end
